theory Spec2Isabelle
  imports Main "HOL-Library.Multiset"
begin

section \<open>Listener group (callbackGroup.ts)\<close>

text \<open>
  A listener group is a closure over one mutable array \<open>callbacks\<close>.  The array is
  the state; every operation takes it and returns it updated.  Callbacks are JavaScript
  function objects compared by identity (\<open>indexOf\<close>); here they are values of a type
  \<open>'c\<close> compared by equality.  A callback is run by the caller of the model: \<open>invoke\<close>
  returns the calls it makes, in order, each with the argument it passes.
\<close>

text \<open>\<open>callbacks.indexOf(callback)\<close> followed by \<open>callbacks.splice(index, 1)\<close> when
  the index is not \<open>-1\<close>: the first occurrence is taken out, nothing changes when there
  is none.\<close>

fun splice_first :: "'c \<Rightarrow> 'c list \<Rightarrow> 'c list" where
  "splice_first c [] = []"
| "splice_first c (x # xs) = (if x = c then xs else x # splice_first c xs)"

text \<open>The remove function returned by one registration call: it closes over the
  callbacks of that call and over its own \<open>active\<close> flag.\<close>

record 'c remover =
  active :: bool
  newCallbacks :: "'c list"

text \<open>\<open>(...newCallbacks) => { callbacks.push(...newCallbacks); let active = true; return () => ... }\<close>\<close>

definition register :: "'c list \<Rightarrow> 'c list \<Rightarrow> 'c list \<times> 'c remover" where
  "register new callbacks =
     (callbacks @ new, \<lparr>active = True, newCallbacks = new\<rparr>)"

text \<open>\<open>newCallbacks.forEach((callback) => ...)\<close>: one \<open>indexOf\<close>/\<open>splice\<close> for each
  callback of the registration call, from left to right.\<close>

fun remove_each :: "'c list \<Rightarrow> 'c list \<Rightarrow> 'c list" where
  "remove_each [] callbacks = callbacks"
| "remove_each (c # cs) callbacks = remove_each cs (splice_first c callbacks)"

text \<open>Running the remove function: \<open>if (!active) return; active = false; ...\<close>\<close>

definition run_remover :: "'c remover \<Rightarrow> 'c list \<Rightarrow> 'c list \<times> 'c remover" where
  "run_remover r callbacks =
     (if \<not> active r then (callbacks, r)
      else (remove_each (newCallbacks r) callbacks, r\<lparr>active := False\<rparr>))"

text \<open>\<open>invoke(...args)\<close>: nothing when the group is empty, else every callback of a copy
  of the array (\<open>callbacks.slice()\<close>) is called with the arguments.\<close>

definition invoke :: "'c list \<Rightarrow> 'a \<Rightarrow> ('c \<times> 'a) list" where
  "invoke callbacks args =
     (if callbacks = [] then [] else map (\<lambda>callback. (callback, args)) callbacks)"

text \<open>\<open>clear\<close>: \<open>callbacks.length = 0\<close>.\<close>

definition clear :: "'c list \<Rightarrow> 'c list" where
  "clear callbacks = []"

section \<open>Static state (createStaticState.ts)\<close>

text \<open>
  The cell closes over \<open>currentValue\<close> and its listener group \<open>changeNotifier\<close>.
  JavaScript's \<open>!==\<close> is a primitive of the language and not equality of values
  (\<open>NaN !== NaN\<close>); it is the parameter \<open>strict_eq\<close> of the model.
\<close>

record ('v, 'c) static_state =
  currentValue :: 'v
  changeNotifier :: "'c list"

definition createStaticState :: "'v \<Rightarrow> ('v, 'c) static_state" where
  "createStaticState initialValue =
     \<lparr>currentValue = initialValue, changeNotifier = []\<rparr>"

text \<open>The argument of a write: \<open>typeof args[0] === 'function' ? args[0](currentValue) : args[0]\<close>.\<close>

datatype 'v write_arg = Plain 'v | Updater "'v \<Rightarrow> 'v"

fun new_value :: "'v write_arg \<Rightarrow> 'v \<Rightarrow> 'v" where
  "new_value (Plain v) cur = v"
| "new_value (Updater f) cur = f cur"

text \<open>The setter.  It returns the cell and the calls made to subscribers before it
  returns.\<close>

definition state_write ::
  "('v \<Rightarrow> 'v \<Rightarrow> bool) \<Rightarrow> 'v write_arg \<Rightarrow> ('v, 'c) static_state
     \<Rightarrow> ('v, 'c) static_state \<times> ('c \<times> 'v) list" where
  "state_write strict_eq a s =
     (let newValue = new_value a (currentValue s) in
      if \<not> strict_eq (currentValue s) newValue
      then (s\<lparr>currentValue := newValue\<rparr>, invoke (changeNotifier s) newValue)
      else (s, []))"

text \<open>The getter, \<open>subscribe\<close> (the listener group itself) and \<open>dispose\<close>.\<close>

definition state_read :: "('v, 'c) static_state \<Rightarrow> 'v" where
  "state_read s = currentValue s"

definition state_subscribe ::
  "'c list \<Rightarrow> ('v, 'c) static_state \<Rightarrow> ('v, 'c) static_state \<times> 'c remover" where
  "state_subscribe new s =
     (let (cbs, r) = register new (changeNotifier s) in (s\<lparr>changeNotifier := cbs\<rparr>, r))"

definition state_unsubscribe ::
  "'c remover \<Rightarrow> ('v, 'c) static_state \<Rightarrow> ('v, 'c) static_state \<times> 'c remover" where
  "state_unsubscribe r s =
     (let (cbs, r') = run_remover r (changeNotifier s) in (s\<lparr>changeNotifier := cbs\<rparr>, r'))"

definition state_dispose :: "('v, 'c) static_state \<Rightarrow> ('v, 'c) static_state" where
  "state_dispose s = s\<lparr>changeNotifier := clear (changeNotifier s)\<rparr>"

section \<open>Deferred controller (async.ts, createDefer)\<close>

text \<open>
  \<open>DeferStatus\<close> (and the \<open>status\<close> of a \<open>PromiseResult\<close>): \<open>"pending" | "resolved" |
  "rejected"\<close>.
\<close>

datatype settle_status = Pending | Resolved | Rejected

text \<open>
  The variables the promise executor of \<open>createDefer\<close> closes over, and the promise
  itself: \<open>promise\<close> is \<open>None\<close> while the native promise is unsettled, and holds how it
  was settled (by \<open>resolve(realValue)\<close> or \<open>reject(realValue)\<close>) afterwards.
  \<open>realValue\<close> is \<open>None\<close> for JavaScript's \<open>undefined\<close>.
\<close>

record 'v deferred =
  status :: settle_status
  realValue :: "'v option"
  isPausing :: bool
  realStatus :: settle_status
  promise :: "(settle_status \<times> 'v option) option"

definition createDefer :: "'v deferred" where
  "createDefer =
     \<lparr>status = Pending, realValue = None, isPausing = False, realStatus = Pending,
      promise = None\<rparr>"

text \<open>The executor's \<open>resolve\<close> and \<open>reject\<close>: a native promise keeps its first
  settlement.\<close>

definition settle_promise ::
  "settle_status \<times> 'v option \<Rightarrow> (settle_status \<times> 'v option) option
     \<Rightarrow> (settle_status \<times> 'v option) option" where
  "settle_promise outcome p = (case p of None \<Rightarrow> Some outcome | Some first \<Rightarrow> Some first)"

definition syncStatus :: "'v deferred \<Rightarrow> 'v deferred" where
  "syncStatus d =
     (if realStatus d = Pending \<or> isPausing d then d
      else if realStatus d = Resolved
        then d\<lparr>status := realStatus d,
               promise := settle_promise (Resolved, realValue d) (promise d)\<rparr>
        else d\<lparr>status := realStatus d,
               promise := settle_promise (Rejected, realValue d) (promise d)\<rparr>)"

definition resolve :: "'v \<Rightarrow> 'v deferred \<Rightarrow> 'v deferred" where
  "resolve v d =
     (if realStatus d \<noteq> Pending then d
      else syncStatus (d\<lparr>realStatus := Resolved, realValue := Some v\<rparr>))"

definition reject :: "'v \<Rightarrow> 'v deferred \<Rightarrow> 'v deferred" where
  "reject reason d =
     (if realStatus d \<noteq> Pending then d
      else syncStatus (d\<lparr>realStatus := Rejected, realValue := Some reason\<rparr>))"

text \<open>What \<open>pause()\<close> returns: \<open>noop\<close>, or the closure that clears \<open>isPausing\<close> and
  synchronises.  All closures of the second kind share the controller's variables and
  hold none of their own.\<close>

datatype unpause_fn = Noop | Unpause

definition pause :: "'v deferred \<Rightarrow> 'v deferred \<times> unpause_fn" where
  "pause d = (if status d \<noteq> Pending then (d, Noop) else (d\<lparr>isPausing := True\<rparr>, Unpause))"

fun run_unpause :: "unpause_fn \<Rightarrow> 'v deferred \<Rightarrow> 'v deferred" where
  "run_unpause Noop d = d"
| "run_unpause Unpause d =
     (if \<not> isPausing d then d else syncStatus (d\<lparr>isPausing := False\<rparr>))"

text \<open>A history of calls on one controller, from its creation.\<close>

datatype 'v defer_call = CallResolve 'v | CallReject 'v | CallPause | CallUnpause unpause_fn

fun defer_step :: "'v deferred \<Rightarrow> 'v defer_call \<Rightarrow> 'v deferred" where
  "defer_step d (CallResolve v) = resolve v d"
| "defer_step d (CallReject r) = reject r d"
| "defer_step d CallPause = fst (pause d)"
| "defer_step d (CallUnpause u) = run_unpause u d"

definition defer_run :: "'v defer_call list \<Rightarrow> 'v deferred" where
  "defer_run calls = foldl defer_step createDefer calls"

text \<open>The outcome that the first \<open>resolve\<close> or \<open>reject\<close> of a history asks for, and the
  outcome a controller has decided (\<open>realStatus\<close> with \<open>realValue\<close>).\<close>

fun first_settle :: "'v defer_call list \<Rightarrow> (settle_status \<times> 'v option) option" where
  "first_settle [] = None"
| "first_settle (CallResolve v # cs) = Some (Resolved, Some v)"
| "first_settle (CallReject r # cs) = Some (Rejected, Some r)"
| "first_settle (c # cs) = first_settle cs"

definition decided :: "'v deferred \<Rightarrow> (settle_status \<times> 'v option) option" where
  "decided d = (if realStatus d = Pending then None else Some (realStatus d, realValue d))"

text \<open>What holds of a controller after any history: either nothing has been delivered
  (then nothing is decided, or the controller is pausing), or the decided outcome has
  been delivered and the controller is not pausing.\<close>

definition defer_inv :: "'v deferred \<Rightarrow> bool" where
  "defer_inv d \<longleftrightarrow>
     (status d = Pending \<and> promise d = None \<and> (realStatus d = Pending \<or> isPausing d)
      \<or> status d \<noteq> Pending \<and> status d = realStatus d \<and> \<not> isPausing d
          \<and> promise d = Some (realStatus d, realValue d))"

section \<open>Future status cache and waitAll (async.ts)\<close>

text \<open>
  \<open>PromiseResult\<close>: the cached classification of a future.  \<open>result_value\<close> is \<open>None\<close>
  for \<open>undefined\<close> (the value of a pending record).  The \<open>version\<close> field, a fresh
  object at every \<open>setResult\<close>, is read by nothing modelled here and is left out.
\<close>

record 'v promise_result =
  result_status :: settle_status
  result_value :: "'v option"

text \<open>\<open>promiseResults\<close>, the weak map from futures to their records.  Futures are
  objects compared by identity; here they are values of a type \<open>'p\<close>.\<close>

type_synonym ('p, 'v) promise_results = "'p \<rightharpoonup> 'v promise_result"

text \<open>\<open>setResult\<close>: \<open>Object.assign(existingResult, result)\<close> overwrites the fields of
  the record already cached, so the cached record is \<open>result\<close> either way.\<close>

definition setResult ::
  "'p \<Rightarrow> 'v promise_result \<Rightarrow> ('p, 'v) promise_results \<Rightarrow> ('p, 'v) promise_results" where
  "setResult p result cache = cache(p \<mapsto> result)"

text \<open>\<open>getResult\<close>: the cached record, or a new pending record that is cached and
  returned at once.\<close>

definition getResult ::
  "'p \<Rightarrow> ('p, 'v) promise_results \<Rightarrow> 'v promise_result \<times> ('p, 'v) promise_results" where
  "getResult p cache =
     (case cache p of
        Some result \<Rightarrow> (result, cache)
      | None \<Rightarrow>
          (let newResult = \<lparr>result_status = Pending, result_value = None\<rparr>
           in (newResult, setResult p newResult cache)))"

text \<open>\<open>values.map(getResult)\<close>, from left to right.\<close>

fun getResults ::
  "'p list \<Rightarrow> ('p, 'v) promise_results \<Rightarrow> 'v promise_result list \<times> ('p, 'v) promise_results" where
  "getResults [] cache = ([], cache)"
| "getResults (p # ps) cache =
     (let (r, cache1) = getResult p cache;
          (rs, cache2) = getResults ps cache1
      in (r # rs, cache2))"

text \<open>
  What a call of \<open>waitAll\<close> does besides returning: the callbacks it calls (functions
  are values of a type \<open>'f\<close>) and \<open>Promise.all(values).then(onResolved, onRejected)\<close>.
  How it ends: a value returned, a value thrown, the combined future
  \<open>Promise.all(values)\<close> thrown, \<open>undefined\<close> returned after some calls, or the
  \<open>TypeError\<close> of calling an \<open>onResolved\<close> that is \<open>undefined\<close>.
\<close>

datatype ('p, 'v, 'f) wait_call =
    CallOnRejected 'f "'v option"
  | CallOnPending 'f
  | CallOnResolved 'f "'v option list"
  | AttachThen "'p list" "'f option" "'f option"

datatype ('p, 'v, 'f) wait_outcome =
    Returns "'v option list"
  | Throws "'v option"
  | ThrowsPromiseAll "'p list"
  | ReturnsUndefined "('p, 'v, 'f) wait_call list"
  | NotAFunction

text \<open>\<open>const [onResolved, onRejected, onPending] = args\<close>: a missing argument is
  \<open>undefined\<close>, as is one passed as \<open>undefined\<close>.\<close>

definition arg :: "nat \<Rightarrow> 'f option list \<Rightarrow> 'f option" where
  "arg i args = (if i < length args then args ! i else None)"

definition waitAll ::
  "'p list \<Rightarrow> 'f option list \<Rightarrow> ('p, 'v) promise_results
     \<Rightarrow> ('p, 'v, 'f) wait_outcome \<times> ('p, 'v) promise_results" where
  "waitAll values args cache =
     (let (results, cache') = getResults values cache;
          isOverloadWithOnResolved = (length args > 0);
          onResolved = arg 0 args;
          onRejected = arg 1 args;
          onPending = arg 2 args
      in case find (\<lambda>x. result_status x = Rejected) results of
           Some rejectedResult \<Rightarrow>
             (if isOverloadWithOnResolved
              then (ReturnsUndefined
                      (case onRejected of
                         Some f \<Rightarrow> [CallOnRejected f (result_value rejectedResult)]
                       | None \<Rightarrow> []), cache')
              else (Throws (result_value rejectedResult), cache'))
         | None \<Rightarrow>
             (if list_ex (\<lambda>x. result_status x = Pending) results
              then (if isOverloadWithOnResolved
                    then (ReturnsUndefined
                            ((case onPending of Some f \<Rightarrow> [CallOnPending f] | None \<Rightarrow> [])
                             @ [AttachThen values onResolved onRejected]), cache')
                    else (ThrowsPromiseAll values, cache'))
              else (let resolvedValues = map result_value results
                    in if isOverloadWithOnResolved
                       then (case onResolved of
                               Some f \<Rightarrow> (ReturnsUndefined [CallOnResolved f resolvedValues], cache')
                             | None \<Rightarrow> (NotAFunction, cache'))
                       else (Returns resolvedValues, cache'))))"

text \<open>The classification a future has in a cache: its record, pending when it has
  none.\<close>

definition classify :: "('p, 'v) promise_results \<Rightarrow> 'p \<Rightarrow> 'v promise_result" where
  "classify cache p =
     (case cache p of Some r \<Rightarrow> r | None \<Rightarrow> \<lparr>result_status = Pending, result_value = None\<rparr>)"

text \<open>\<open>resolved(value)\<close> and \<open>rejected(reason)\<close> seed the cache.\<close>

definition resolved :: "'p \<Rightarrow> 'v \<Rightarrow> ('p, 'v) promise_results \<Rightarrow> ('p, 'v) promise_results" where
  "resolved p v cache = setResult p \<lparr>result_status = Resolved, result_value = Some v\<rparr> cache"

definition rejected :: "'p \<Rightarrow> 'v \<Rightarrow> ('p, 'v) promise_results \<Rightarrow> ('p, 'v) promise_results" where
  "rejected p reason cache =
     setResult p \<lparr>result_status = Rejected, result_value = Some reason\<rparr> cache"

section \<open>Instance facade (createInstance.ts, the Proxy handlers)\<close>

text \<open>
  A property key is a string or a symbol; \<open>MODEL_INSTANCE_SYMBOL\<close> is the one symbol
  the handler knows.
\<close>

datatype prop_key = InstanceSymbol | OtherSymbol nat | Name string

text \<open>
  A property descriptor of the builder's props object, as
  \<open>Object.getOwnPropertyDescriptors(originalProps)\<close> gives it: an accessor property has
  \<open>get\<close> (when it has a getter), a data property has \<open>value\<close>; what is absent is
  \<open>undefined\<close>, here \<open>None\<close>.  Getter functions are values of a type \<open>'g\<close>.  The props
  object is the list of its own string-keyed properties, in the object's order.
\<close>

record ('v, 'g) descriptor =
  get :: "'g option"
  "value" :: "'v option"
  enumerable :: bool

type_synonym ('v, 'g) props = "(string \<times> ('v, 'g) descriptor) list"

text \<open>
  What a read of the facade returns: \<open>true\<close>, the instance's \<open>dispose\<close>, a value
  (\<open>None\<close> for \<open>undefined\<close>), the result of calling a getter of the props with the
  facade as \<open>this\<close>, or the wrapper that calls a function of the props with the facade
  as \<open>this\<close>.
\<close>

datatype ('v, 'g) read_result = IsTrue | Dispose | Value "'v option" | GetterCall 'g | Wrapper 'v

text \<open>The closures kept in the \<open>getters\<close> map, and what calling one returns.\<close>

datatype ('v, 'g) getter = UNDEFINED_GETTER | CallGet 'g | ReturnWrapper 'v | ReturnValue "'v option"

fun run_getter :: "('v, 'g) getter \<Rightarrow> ('v, 'g) read_result" where
  "run_getter UNDEFINED_GETTER = Value None"
| "run_getter (CallGet g) = GetterCall g"
| "run_getter (ReturnWrapper fn) = Wrapper fn"
| "run_getter (ReturnValue v) = Value v"

text \<open>
  The getter built for a descriptor.  The second test of the source,
  \<open>typeof descriptor.value === 'function' &&
  Object.getOwnPropertyDescriptors(descriptor.value).length === NORMAL_FUNC_PROP_COUNT\<close>,
  is a test on the value; it is the parameter \<open>normal_func\<close>.
\<close>

definition make_getter :: "('v \<Rightarrow> bool) \<Rightarrow> ('v, 'g) descriptor \<Rightarrow> ('v, 'g) getter" where
  "make_getter normal_func descriptor =
     (case get descriptor of
        Some g \<Rightarrow> CallGet g
      | None \<Rightarrow>
          (case value descriptor of
             Some v \<Rightarrow> if normal_func v then ReturnWrapper v else ReturnValue (Some v)
           | None \<Rightarrow> ReturnValue None))"

text \<open>
  The \<open>get\<close> handler.  It returns what the read returns and the \<open>getters\<close> map, which
  it may have extended.  \<open>descriptors[prop]\<close> is the own property of that name; a
  name that the descriptors object only inherits (\<open>toString\<close>, \<open>constructor\<close>) gives an
  object with neither \<open>get\<close> nor \<open>value\<close>, and the read returns \<open>undefined\<close> as it does
  for an absent name.
\<close>

definition proxy_get ::
  "('v \<Rightarrow> bool) \<Rightarrow> ('v, 'g) props \<Rightarrow> prop_key \<Rightarrow> (string \<rightharpoonup> ('v, 'g) getter)
     \<Rightarrow> ('v, 'g) read_result \<times> (string \<rightharpoonup> ('v, 'g) getter)" where
  "proxy_get normal_func descriptors prop getters =
     (case prop of
        InstanceSymbol \<Rightarrow> (IsTrue, getters)
      | OtherSymbol _ \<Rightarrow> (Value None, getters)
      | Name p \<Rightarrow>
          if p = ''init'' then (Value None, getters)
          else if p = ''dispose'' then (Dispose, getters)
          else (case getters p of
                  Some getter \<Rightarrow> (run_getter getter, getters)
                | None \<Rightarrow>
                    (case map_of descriptors p of
                       None \<Rightarrow> (run_getter UNDEFINED_GETTER, getters(p \<mapsto> UNDEFINED_GETTER))
                     | Some descriptor \<Rightarrow>
                         (let getter = make_getter normal_func descriptor
                          in (run_getter getter, getters(p \<mapsto> getter))))))"

text \<open>\<open>const keys = Object.keys(originalProps).concat('dispose')\<close>, which the
  \<open>ownKeys\<close> handler returns.\<close>

definition object_keys :: "('v, 'g) props \<Rightarrow> string list" where
  "object_keys props = map fst (filter (\<lambda>(name, d). enumerable d) props)"

definition keys :: "('v, 'g) props \<Rightarrow> string list" where
  "keys originalProps = object_keys originalProps @ [''dispose'']"

text \<open>The \<open>getters\<close> map after a series of reads of a new facade.\<close>

fun reads ::
  "('v \<Rightarrow> bool) \<Rightarrow> ('v, 'g) props \<Rightarrow> prop_key list \<Rightarrow> (string \<rightharpoonup> ('v, 'g) getter)
     \<Rightarrow> (string \<rightharpoonup> ('v, 'g) getter)" where
  "reads normal_func descriptors [] getters = getters"
| "reads normal_func descriptors (prop # rest) getters =
     reads normal_func descriptors rest (snd (proxy_get normal_func descriptors prop getters))"

text \<open>Every closure in the map is the one the descriptors give for its name.\<close>

definition getters_ok ::
  "('v \<Rightarrow> bool) \<Rightarrow> ('v, 'g) props \<Rightarrow> (string \<rightharpoonup> ('v, 'g) getter) \<Rightarrow> bool" where
  "getters_ok normal_func descriptors getters \<longleftrightarrow>
     (\<forall>p getter. getters p = Some getter \<longrightarrow>
        getter = (case map_of descriptors p of
                    None \<Rightarrow> UNDEFINED_GETTER
                  | Some descriptor \<Rightarrow> make_getter normal_func descriptor))"

section \<open>Deep-equality map (mapEx.ts)\<close>

text \<open>
  A native \<open>Map\<close> is an association list in insertion order, with keys compared by
  identity.  \<open>set\<close> overwrites the value of a key that is there and appends a new key.
\<close>

fun alist_set :: "'a \<Rightarrow> 'b \<Rightarrow> ('a \<times> 'b) list \<Rightarrow> ('a \<times> 'b) list" where
  "alist_set k v [] = [(k, v)]"
| "alist_set k v ((k', v') # al) =
     (if k' = k then (k, v) # al else (k', v') # alist_set k v al)"

definition alist_delete :: "'a \<Rightarrow> ('a \<times> 'b) list \<Rightarrow> ('a \<times> 'b) list" where
  "alist_delete k al = filter (\<lambda>(k', v'). k' \<noteq> k) al"

text \<open>
  \<open>MapEx\<close> keeps the non-object keys in a native map and the object keys in an array
  that is searched with the deep equality \<open>equal\<close> of \<open>@wry/equality\<close>, a library
  outside this repository: \<open>equal\<close> and the test \<open>isObjectKey\<close>
  (\<open>typeof key === "object" && key !== null\<close>) are parameters.
\<close>

record ('a, 'b) mapex =
  nonObjectMap :: "('a \<times> 'b) list"
  objectEntries :: "('a \<times> 'b) list"

text \<open>\<open>existingEntry.value = value\<close>: the first entry with an equal key keeps its key and
  takes the value; without one the entry is pushed.\<close>

fun entries_set :: "('a \<Rightarrow> 'a \<Rightarrow> bool) \<Rightarrow> 'a \<Rightarrow> 'b \<Rightarrow> ('a \<times> 'b) list \<Rightarrow> ('a \<times> 'b) list" where
  "entries_set equal k v [] = [(k, v)]"
| "entries_set equal k v ((k', v') # es) =
     (if equal k' k then (k', v) # es else (k', v') # entries_set equal k v es)"

text \<open>\<open>findIndex\<close> and \<open>splice(index, 1)\<close> when the index is not \<open>-1\<close>.\<close>

fun remove_first :: "('a \<Rightarrow> bool) \<Rightarrow> 'a list \<Rightarrow> 'a list" where
  "remove_first P [] = []"
| "remove_first P (x # xs) = (if P x then xs else x # remove_first P xs)"

definition mapex_set ::
  "('a \<Rightarrow> bool) \<Rightarrow> ('a \<Rightarrow> 'a \<Rightarrow> bool) \<Rightarrow> 'a \<Rightarrow> 'b \<Rightarrow> ('a, 'b) mapex \<Rightarrow> ('a, 'b) mapex" where
  "mapex_set isObjectKey equal k v m =
     (if isObjectKey k then m\<lparr>objectEntries := entries_set equal k v (objectEntries m)\<rparr>
      else m\<lparr>nonObjectMap := alist_set k v (nonObjectMap m)\<rparr>)"

definition mapex_get ::
  "('a \<Rightarrow> bool) \<Rightarrow> ('a \<Rightarrow> 'a \<Rightarrow> bool) \<Rightarrow> 'a \<Rightarrow> ('a, 'b) mapex \<Rightarrow> 'b option" where
  "mapex_get isObjectKey equal k m =
     (if isObjectKey k
      then map_option snd (find (\<lambda>entry. equal (fst entry) k) (objectEntries m))
      else map_of (nonObjectMap m) k)"

definition mapex_delete ::
  "('a \<Rightarrow> bool) \<Rightarrow> ('a \<Rightarrow> 'a \<Rightarrow> bool) \<Rightarrow> 'a \<Rightarrow> ('a, 'b) mapex \<Rightarrow> ('a, 'b) mapex" where
  "mapex_delete isObjectKey equal k m =
     (if isObjectKey k
      then m\<lparr>objectEntries := remove_first (\<lambda>entry. equal (fst entry) k) (objectEntries m)\<rparr>
      else m\<lparr>nonObjectMap := alist_delete k (nonObjectMap m)\<rparr>)"

definition mapex_clear :: "('a, 'b) mapex \<Rightarrow> ('a, 'b) mapex" where
  "mapex_clear m = \<lparr>nonObjectMap = [], objectEntries = []\<rparr>"

definition mapex_entries :: "('a, 'b) mapex \<Rightarrow> ('a \<times> 'b) list" where
  "mapex_entries m = nonObjectMap m @ objectEntries m"

text \<open>The constructor: \<open>for (const [key, value] of entries) this.set(key, value)\<close>.\<close>

definition new_MapEx ::
  "('a \<Rightarrow> bool) \<Rightarrow> ('a \<Rightarrow> 'a \<Rightarrow> bool) \<Rightarrow> ('a \<times> 'b) list \<Rightarrow> ('a, 'b) mapex" where
  "new_MapEx isObjectKey equal entries =
     foldl (\<lambda>m (k, v). mapex_set isObjectKey equal k v m)
       \<lparr>nonObjectMap = [], objectEntries = []\<rparr> entries"

text \<open>The variable \<open>registry\<close> has the type of a native map and may hold either.\<close>

datatype ('a, 'b) map_object = NativeMap "('a \<times> 'b) list" | MapEx "('a, 'b) mapex"

fun map_get :: "('a \<Rightarrow> bool) \<Rightarrow> ('a \<Rightarrow> 'a \<Rightarrow> bool) \<Rightarrow> 'a \<Rightarrow> ('a, 'b) map_object \<Rightarrow> 'b option" where
  "map_get isObjectKey equal k (NativeMap al) = map_of al k"
| "map_get isObjectKey equal k (MapEx m) = mapex_get isObjectKey equal k m"

fun map_set ::
  "('a \<Rightarrow> bool) \<Rightarrow> ('a \<Rightarrow> 'a \<Rightarrow> bool) \<Rightarrow> 'a \<Rightarrow> 'b \<Rightarrow> ('a, 'b) map_object \<Rightarrow> ('a, 'b) map_object" where
  "map_set isObjectKey equal k v (NativeMap al) = NativeMap (alist_set k v al)"
| "map_set isObjectKey equal k v (MapEx m) = MapEx (mapex_set isObjectKey equal k v m)"

fun map_delete ::
  "('a \<Rightarrow> bool) \<Rightarrow> ('a \<Rightarrow> 'a \<Rightarrow> bool) \<Rightarrow> 'a \<Rightarrow> ('a, 'b) map_object \<Rightarrow> ('a, 'b) map_object" where
  "map_delete isObjectKey equal k (NativeMap al) = NativeMap (alist_delete k al)"
| "map_delete isObjectKey equal k (MapEx m) = MapEx (mapex_delete isObjectKey equal k m)"

fun map_clear :: "('a, 'b) map_object \<Rightarrow> ('a, 'b) map_object" where
  "map_clear (NativeMap al) = NativeMap []"
| "map_clear (MapEx m) = MapEx (mapex_clear m)"

fun map_entries :: "('a, 'b) map_object \<Rightarrow> ('a \<times> 'b) list" where
  "map_entries (NativeMap al) = al"
| "map_entries (MapEx m) = mapex_entries m"

section \<open>Container (createContainer.ts)\<close>

text \<open>
  What is passed as \<open>type\<close> to the container: a falsy value, a model type (an object
  made by \<open>createType\<close>, which \<open>isType\<close> recognises), or any other value.  Model types
  and other values are compared by identity by the native map; here they are values of
  the types \<open>'t\<close> and \<open>'x\<close>.
\<close>

datatype ('t, 'x) dep = Falsy | ModelType 't | Other 'x

fun isType :: "('t, 'x) dep \<Rightarrow> bool" where
  "isType (ModelType t) = True"
| "isType d = False"

text \<open>
  \<open>RegistryEntry\<close>.  The \<open>instances\<close> array of a model entry is shared with the
  \<open>onDispose\<close> closure of every instance made in it, so the entry holds the address of
  the array and the arrays are in a store.  An element of the array is
  \<open>{key, instance}\<close>; an instance (a new Proxy at every creation) is its number.
\<close>

datatype 'x registry_entry = ModelEntry nat | ValueEntry 'x

datatype lifecycle = PreInit | Init | Ready | Disposed

text \<open>What the closures of one instance hold: its \<open>phase\<close>, and for \<open>onDispose\<close> the
  key and the array it was created for.\<close>

record 'k model_instance =
  phase :: lifecycle
  instance_key :: 'k
  instance_array :: nat

text \<open>
  The container: the variable \<open>registry\<close> refers to a map object; map objects, arrays and
  instances are in stores; a new object takes the next free address.  The storages play
  no part in the registry and are left out.
\<close>

record ('t, 'x, 'k) container =
  registry :: nat
  maps :: "nat \<rightharpoonup> (('t, 'x) dep, 'x registry_entry) map_object"
  arrays :: "nat \<rightharpoonup> ('k \<times> nat) list"
  instances :: "nat \<rightharpoonup> 'k model_instance"
  next_map :: nat
  next_array :: nat
  next_instance :: nat

text \<open>The library's \<open>equal\<close> on instance keys and on registry keys, and \<open>isObjectKey\<close>
  on registry keys.\<close>

record ('t, 'x, 'k) platform =
  equal_key :: "'k \<Rightarrow> 'k \<Rightarrow> bool"
  equal_dep :: "('t, 'x) dep \<Rightarrow> ('t, 'x) dep \<Rightarrow> bool"
  isObjectKey :: "('t, 'x) dep \<Rightarrow> bool"

definition createContainer :: "('t, 'x, 'k) container" where
  "createContainer =
     \<lparr>registry = 0, maps = [0 \<mapsto> NativeMap []], arrays = Map.empty, instances = Map.empty,
      next_map = 1, next_array = 0, next_instance = 0\<rparr>"

definition the_registry ::
  "('t, 'x, 'k) container \<Rightarrow> (('t, 'x) dep, 'x registry_entry) map_object" where
  "the_registry s = (case maps s (registry s) of Some m \<Rightarrow> m | None \<Rightarrow> NativeMap [])"

definition registry_get ::
  "('t, 'x, 'k) platform \<Rightarrow> ('t, 'x) dep \<Rightarrow> ('t, 'x, 'k) container \<Rightarrow> 'x registry_entry option" where
  "registry_get js d s = map_get (isObjectKey js) (equal_dep js) d (the_registry s)"

definition with_registry ::
  "((('t, 'x) dep, 'x registry_entry) map_object \<Rightarrow> (('t, 'x) dep, 'x registry_entry) map_object)
     \<Rightarrow> ('t, 'x, 'k) container \<Rightarrow> ('t, 'x, 'k) container" where
  "with_registry f s = s\<lparr>maps := (maps s)(registry s \<mapsto> f (the_registry s))\<rparr>"

definition array_at :: "('t, 'x, 'k) container \<Rightarrow> nat \<Rightarrow> ('k \<times> nat) list" where
  "array_at s a = (case arrays s a of Some arr \<Rightarrow> arr | None \<Rightarrow> [])"

text \<open>
  \<open>dispose\<close> of an instance: nothing when it is disposed already; else the phase
  changes and \<open>onDispose\<close> takes the first element with an equal key out of the array the
  instance was created for.  The child container and the dispose hooks of the model are
  the model's own business and not modelled.
\<close>

definition dispose_instance ::
  "('t, 'x, 'k) platform \<Rightarrow> nat \<Rightarrow> ('t, 'x, 'k) container \<Rightarrow> ('t, 'x, 'k) container" where
  "dispose_instance js i s =
     (case instances s i of
        None \<Rightarrow> s
      | Some inst \<Rightarrow>
          if phase inst = Disposed then s
          else s\<lparr>instances := (instances s)(i \<mapsto> inst\<lparr>phase := Disposed\<rparr>),
                 arrays := (arrays s)(instance_array inst \<mapsto>
                   remove_first (\<lambda>x. equal_key js (fst x) (instance_key inst))
                     (array_at s (instance_array inst)))\<rparr>)"

text \<open>What \<open>get\<close> returns, and its one error.\<close>

datatype ('t, 'x) resolved_dep = TheInstance nat | TheValue 'x | Itself "('t, 'x) dep"

datatype container_error = InvalidDependency

text \<open>
  \<open>get\<close>.  The builder of the model type runs inside \<open>createInstance\<close>, before the new
  element is pushed; it is taken to return without calling back into this container.
\<close>

definition container_get ::
  "('t, 'x, 'k) platform \<Rightarrow> ('t, 'x) dep \<Rightarrow> 'k \<Rightarrow> ('t, 'x, 'k) container
     \<Rightarrow> (container_error + ('t, 'x) resolved_dep) \<times> ('t, 'x, 'k) container" where
  "container_get js type key s =
     (if type = Falsy then (Inl InvalidDependency, s)
      else if isType type then
        (let (entry, s1) =
               (case registry_get js type s of
                  None \<Rightarrow>
                    (ModelEntry (next_array s),
                     with_registry
                       (map_set (isObjectKey js) (equal_dep js) type (ModelEntry (next_array s)))
                       (s\<lparr>arrays := (arrays s)(next_array s \<mapsto> []),
                          next_array := Suc (next_array s)\<rparr>))
                | Some entry \<Rightarrow> (entry, s))
         in case entry of
              ModelEntry a \<Rightarrow>
                (case find (\<lambda>x. equal_key js (fst x) key) (array_at s1 a) of
                   None \<Rightarrow>
                     (let newInstance = next_instance s1
                      in (Inr (TheInstance newInstance),
                          s1\<lparr>instances := (instances s1)(newInstance \<mapsto>
                                 \<lparr>phase = Ready, instance_key = key, instance_array = a\<rparr>),
                              arrays := (arrays s1)(a \<mapsto> array_at s1 a @ [(key, newInstance)]),
                              next_instance := Suc newInstance\<rparr>))
                 | Some x \<Rightarrow> (Inr (TheInstance (snd x)), s1))
            | ValueEntry v \<Rightarrow> (Inr (TheValue v), s1))
      else (case registry_get js type s of
              Some (ValueEntry v) \<Rightarrow> (Inr (TheValue v), s)
            | _ \<Rightarrow> (Inr (Itself type), s)))"


definition container_set ::
  "('t, 'x, 'k) platform \<Rightarrow> ('t, 'x) dep \<Rightarrow> 'x \<Rightarrow> ('t, 'x, 'k) container \<Rightarrow> ('t, 'x, 'k) container" where
  "container_set js key impl s =
     with_registry (map_set (isObjectKey js) (equal_dep js) key (ValueEntry impl)) s"

definition container_delete ::
  "('t, 'x, 'k) platform \<Rightarrow> ('t, 'x) dep \<Rightarrow> 'k \<Rightarrow> ('t, 'x, 'k) container \<Rightarrow> ('t, 'x, 'k) container" where
  "container_delete js type key s =
     (case registry_get js type s of
        None \<Rightarrow> s
      | Some (ValueEntry v) \<Rightarrow> with_registry (map_delete (isObjectKey js) (equal_dep js) type) s
      | Some (ModelEntry a) \<Rightarrow>
          (case find (\<lambda>x. equal_key js (fst x) key) (array_at s a) of
             None \<Rightarrow> s
           | Some x \<Rightarrow>
               dispose_instance js (snd x)
                 (s\<lparr>arrays := (arrays s)(a \<mapsto>
                     remove_first (\<lambda>x. equal_key js (fst x) key) (array_at s a))\<rparr>)))"

text \<open>\<open>const copyInstances = entry.instances.slice(); entry.instances.length = 0;
  disposeInstances(copyInstances)\<close>.  An error of a dispose hook would be kept and
  rethrown at the end; the hooks are not modelled.\<close>

definition dispose_entry ::
  "('t, 'x, 'k) platform \<Rightarrow> 'x registry_entry \<Rightarrow> ('t, 'x, 'k) container \<Rightarrow> ('t, 'x, 'k) container" where
  "dispose_entry js entry s =
     (case entry of
        ModelEntry a \<Rightarrow>
          foldl (\<lambda>s' x. dispose_instance js (snd x) s') (s\<lparr>arrays := (arrays s)(a \<mapsto> [])\<rparr>)
            (array_at s a)
      | ValueEntry v \<Rightarrow> s)"

definition container_deleteAll ::
  "('t, 'x, 'k) platform \<Rightarrow> ('t, 'x) dep \<Rightarrow> ('t, 'x, 'k) container \<Rightarrow> ('t, 'x, 'k) container" where
  "container_deleteAll js type s =
     (if type \<noteq> Falsy then
        (case registry_get js type s of
           Some entry \<Rightarrow> dispose_entry js entry s
         | None \<Rightarrow> s)
      else with_registry map_clear
             (foldl (\<lambda>s' (k, entry). dispose_entry js entry s') s (map_entries (the_registry s))))"

text \<open>
  \<open>backup\<close>: \<open>prevRegistry\<close> is the map object \<open>registry\<close> refers to, \<open>newRegistry\<close> a new
  \<open>MapEx\<close> with the same entries.  The function returned closes over both.
\<close>

record restore_fn =
  prevRegistry :: nat
  newRegistry :: nat

definition backup ::
  "('t, 'x, 'k) platform \<Rightarrow> ('t, 'x, 'k) container \<Rightarrow> ('t, 'x, 'k) container \<times> restore_fn" where
  "backup js s =
     (s\<lparr>maps := (maps s)(next_map s \<mapsto>
            MapEx (new_MapEx (isObjectKey js) (equal_dep js) (map_entries (the_registry s)))),
        next_map := Suc (next_map s)\<rparr>,
      \<lparr>prevRegistry = registry s, newRegistry = next_map s\<rparr>)"

text \<open>\<open>() => { if (newRegistry === registry) { registry = prevRegistry; } }\<close>\<close>

definition restore :: "restore_fn \<Rightarrow> ('t, 'x, 'k) container \<Rightarrow> ('t, 'x, 'k) container" where
  "restore r s = (if newRegistry r = registry s then s\<lparr>registry := prevRegistry r\<rparr> else s)"

text \<open>
  A history of calls on a container and on what it has handed out: \<open>CallDispose i\<close> calls
  \<open>dispose\<close> of instance \<open>i\<close>, \<open>CallRestore n\<close> the function that the \<open>n\<close>-th \<open>backup\<close>
  returned.  The functions returned so far are kept beside the container.
\<close>

datatype ('t, 'x, 'k) call =
    CallGet "('t, 'x) dep" 'k
  | CallSet "('t, 'x) dep" 'x
  | CallDelete "('t, 'x) dep" 'k
  | CallDeleteAll "('t, 'x) dep"
  | CallDispose nat
  | CallBackup
  | CallRestore nat

fun container_step ::
  "('t, 'x, 'k) platform \<Rightarrow> ('t, 'x, 'k) container \<times> restore_fn list \<Rightarrow> ('t, 'x, 'k) call
     \<Rightarrow> ('t, 'x, 'k) container \<times> restore_fn list" where
  "container_step js (s, rs) (CallGet type key) = (snd (container_get js type key s), rs)"
| "container_step js (s, rs) (CallSet key impl) = (container_set js key impl s, rs)"
| "container_step js (s, rs) (CallDelete type key) = (container_delete js type key s, rs)"
| "container_step js (s, rs) (CallDeleteAll type) = (container_deleteAll js type s, rs)"
| "container_step js (s, rs) (CallDispose i) = (dispose_instance js i s, rs)"
| "container_step js (s, rs) CallBackup = (let (s', r) = backup js s in (s', rs @ [r]))"
| "container_step js (s, rs) (CallRestore n) =
     (if n < length rs then (restore (rs ! n) s, rs) else (s, rs))"

definition container_run ::
  "('t, 'x, 'k) platform \<Rightarrow> ('t, 'x, 'k) call list \<Rightarrow> ('t, 'x, 'k) container \<times> restore_fn list" where
  "container_run js calls = foldl (container_step js) (createContainer, []) calls"


text \<open>No call makes \<open>registry\<close> refer to another map object, and every function
  returned by \<open>backup\<close> holds as \<open>newRegistry\<close> an object made after the first.\<close>

definition registry_fixed :: "('t, 'x, 'k) container \<times> restore_fn list \<Rightarrow> bool" where
  "registry_fixed h \<longleftrightarrow>
     registry (fst h) = 0 \<and> 0 < next_map (fst h) \<and> (\<forall>r\<in>set (snd h). newRegistry r \<noteq> 0)"








text \<open>A platform for examples: instance keys are integers and registry keys are
  compared as they are, so that deep equality is equality; model types are the objects
  among the registry keys.\<close>

definition structural :: "(nat, string, int) platform" where
  "structural = \<lparr>equal_key = (=), equal_dep = (=), isObjectKey = isType\<rparr>"


section \<open>Effects (createEffect.ts)\<close>

text \<open>
  The subscribers of a dependency: the \<open>handleChange\<close> closure of the effect under
  study, or a listener from outside it (another effect, a component, a storage
  write-back), which is a value of a type \<open>'o\<close>.
\<close>

datatype 'o subscriber = HandleChange | Outside 'o

text \<open>
  What \<open>fn\<close> does with the accessors it is given: it returns, or it reads a dependency
  and goes on with the value read.  \<open>fn\<close> is run with the variables it closes over
  (of a type \<open>'u\<close>) and returns them as it leaves them; the optional \<open>callback\<close> is
  part of that.  The names (of a type \<open>'n\<close>) are the keys of the dependency map: the
  accessor type admits no other key.
\<close>

datatype ('n, 'v, 'u) reading = Return 'u | Read 'n "'v \<Rightarrow> ('n, 'v, 'u) reading"

text \<open>
  The dependency map, whose observables all have the shape of a static state (a current
  value and a listener group \<open>subscribe\<close>); the \<open>cleanupNotifier\<close> of the effect, a
  listener group of remove functions, each kept with the dependency whose group it
  removes from; the closure variables of \<open>fn\<close>; the number of times \<open>fn\<close> has run;
  the calls made to outside subscribers; and the names that the latest run of \<open>fn\<close> has
  read through the accessors, in order.  The last three are records of what happened:
  the code keeps none of them and nothing in the model reads them.
\<close>

record ('n, 'v, 'o, 'u) effect_world =
  dependencies :: "'n \<Rightarrow> ('v, 'o subscriber) static_state"
  cleanupNotifier :: "('n \<times> 'o subscriber remover) list"
  closure :: 'u
  runs :: nat
  outside_calls :: "('o \<times> 'v) list"
  last_read :: "'n list"

text \<open>The \<open>get\<close> handler of the accessor proxy:
  \<open>cleanupNotifier(observable.subscribe(handleChange)); return getObservableGetter(observable)()\<close>.\<close>

definition accessor_get ::
  "'n \<Rightarrow> ('n, 'v, 'o, 'u) effect_world \<Rightarrow> 'v \<times> ('n, 'v, 'o, 'u) effect_world" where
  "accessor_get key w =
     (let observable = dependencies w key;
          (observable', remove) = state_subscribe [HandleChange] observable;
          (cleanup', _) = register [(key, remove)] (cleanupNotifier w)
      in (state_read observable',
          w\<lparr>dependencies := (dependencies w)(key := observable'),
            cleanupNotifier := cleanup',
            last_read := last_read w @ [key]\<rparr>))"

text \<open>Running \<open>fn(accessors)\<close>.\<close>

primrec run_reading ::
  "('n, 'v, 'u) reading \<Rightarrow> ('n, 'v, 'o, 'u) effect_world \<Rightarrow> ('n, 'v, 'o, 'u) effect_world" where
  "run_reading (Return u) w = w\<lparr>closure := u\<rparr>"
| "run_reading (Read key k) w =
     (let (v, w') = accessor_get key w in run_reading (k v) w')"

definition run_fn ::
  "('u \<Rightarrow> ('n, 'v, 'u) reading) \<Rightarrow> ('n, 'v, 'o, 'u) effect_world \<Rightarrow> ('n, 'v, 'o, 'u) effect_world" where
  "run_fn fn w = run_reading (fn (closure w)) (w\<lparr>runs := Suc (runs w), last_read := []\<rparr>)"

text \<open>\<open>cleanupNotifier.invokeAndClear()\<close>: every remove function of a copy of the group
  is run, then the group is cleared.\<close>

definition run_cleanup ::
  "('n, 'v, 'o, 'u) effect_world \<Rightarrow> 'n \<times> 'o subscriber remover \<Rightarrow> ('n, 'v, 'o, 'u) effect_world" where
  "run_cleanup w c =
     w\<lparr>dependencies := (dependencies w)
          (fst c := fst (state_unsubscribe (snd c) (dependencies w (fst c))))\<rparr>"

definition invokeAndClear :: "('n, 'v, 'o, 'u) effect_world \<Rightarrow> ('n, 'v, 'o, 'u) effect_world" where
  "invokeAndClear w =
     (foldl run_cleanup w (map fst (invoke (cleanupNotifier w) ())))
       \<lparr>cleanupNotifier := clear (cleanupNotifier w)\<rparr>"

text \<open>\<open>handleChange\<close>, \<open>createEffect\<close> (on dependencies that \<open>handleChange\<close> is not
  subscribed to yet) and the function \<open>createEffect\<close> returns.\<close>

definition handleChange ::
  "('u \<Rightarrow> ('n, 'v, 'u) reading) \<Rightarrow> ('n, 'v, 'o, 'u) effect_world \<Rightarrow> ('n, 'v, 'o, 'u) effect_world" where
  "handleChange fn w = run_fn fn (invokeAndClear w)"

definition createEffect ::
  "('n \<Rightarrow> ('v, 'o subscriber) static_state) \<Rightarrow> ('u \<Rightarrow> ('n, 'v, 'u) reading) \<Rightarrow> 'u
     \<Rightarrow> ('n, 'v, 'o, 'u) effect_world" where
  "createEffect deps fn u =
     run_fn fn \<lparr>dependencies = deps, cleanupNotifier = [], closure = u, runs = 0,
                outside_calls = [], last_read = []\<rparr>"

definition disposeEffect :: "('n, 'v, 'o, 'u) effect_world \<Rightarrow> ('n, 'v, 'o, 'u) effect_world" where
  "disposeEffect w = invokeAndClear w"

text \<open>The calls that a write to a dependency makes, one after the other: \<open>handleChange\<close>
  reruns the effect, a call to an outside subscriber is recorded.\<close>

fun dispatch ::
  "('u \<Rightarrow> ('n, 'v, 'u) reading) \<Rightarrow> ('o subscriber \<times> 'v) list \<Rightarrow> ('n, 'v, 'o, 'u) effect_world
     \<Rightarrow> ('n, 'v, 'o, 'u) effect_world" where
  "dispatch fn [] w = w"
| "dispatch fn ((HandleChange, v) # calls) w = dispatch fn calls (handleChange fn w)"
| "dispatch fn ((Outside l, v) # calls) w =
     dispatch fn calls (w\<lparr>outside_calls := outside_calls w @ [(l, v)]\<rparr>)"

text \<open>A write to the dependency \<open>key\<close>, a static state.\<close>

definition write_dependency ::
  "('v \<Rightarrow> 'v \<Rightarrow> bool) \<Rightarrow> ('u \<Rightarrow> ('n, 'v, 'u) reading) \<Rightarrow> 'n \<Rightarrow> 'v write_arg
     \<Rightarrow> ('n, 'v, 'o, 'u) effect_world \<Rightarrow> ('n, 'v, 'o, 'u) effect_world" where
  "write_dependency strict_eq fn key a w =
     (let (observable', calls) = state_write strict_eq a (dependencies w key)
      in dispatch fn calls (w\<lparr>dependencies := (dependencies w)(key := observable')\<rparr>))"





text \<open>
  A history of an effect: writes to its dependencies, outside listeners subscribing to
  them, and calls of the function that \<open>createEffect\<close> returned.
\<close>

datatype ('n, 'v, 'o) effect_call =
    WriteDependency 'n "'v write_arg"
  | SubscribeOutside 'n 'o
  | CallReturned

fun effect_step ::
  "('v \<Rightarrow> 'v \<Rightarrow> bool) \<Rightarrow> ('u \<Rightarrow> ('n, 'v, 'u) reading) \<Rightarrow> ('n, 'v, 'o, 'u) effect_world
     \<Rightarrow> ('n, 'v, 'o) effect_call \<Rightarrow> ('n, 'v, 'o, 'u) effect_world" where
  "effect_step strict_eq fn w (WriteDependency key a) = write_dependency strict_eq fn key a w"
| "effect_step strict_eq fn w (SubscribeOutside key l) =
     w\<lparr>dependencies := (dependencies w)
          (key := fst (state_subscribe [Outside l] (dependencies w key)))\<rparr>"
| "effect_step strict_eq fn w CallReturned = disposeEffect w"

text \<open>Dependencies that are new static states with the given vals.\<close>

definition new_states :: "('n \<Rightarrow> 'v) \<Rightarrow> 'n \<Rightarrow> ('v, 'o subscriber) static_state" where
  "new_states vals key = createStaticState (vals key)"

definition effect_after ::
  "('v \<Rightarrow> 'v \<Rightarrow> bool) \<Rightarrow> ('u \<Rightarrow> ('n, 'v, 'u) reading) \<Rightarrow> ('n \<Rightarrow> 'v) \<Rightarrow> 'u
     \<Rightarrow> ('n, 'v, 'o) effect_call list \<Rightarrow> ('n, 'v, 'o, 'u) effect_world" where
  "effect_after strict_eq fn vals u calls =
     foldl (effect_step strict_eq fn) (createEffect (new_states vals) fn u) calls"



section \<open>Resources (createResource.ts)\<close>

text \<open>
  The effect of a resource depends on the caller's dependencies and on the resource's
  own \<open>version\<close> state, under the key \<open>VERSION_PROP\<close>.  The value of an observable
  is a number (as \<open>version\<close> holds) or any other value.
\<close>

datatype 'n resource_dep = VERSION_PROP | Dependency 'n

datatype 'v js_value = Number int | Anything 'v

fun js_strict_eq :: "('v \<Rightarrow> 'v \<Rightarrow> bool) \<Rightarrow> 'v js_value \<Rightarrow> 'v js_value \<Rightarrow> bool" where
  "js_strict_eq strict_eq (Number a) (Number b) = (a = b)"
| "js_strict_eq strict_eq (Anything a) (Anything b) = strict_eq a b"
| "js_strict_eq strict_eq a b = False"

text \<open>
  A JavaScript number is a double.  \<open>Number n\<close> is the double whose value is the integer
  \<open>n\<close>; a sum of two of them is the exact sum rounded to the nearest double, which for
  an integer means keeping its 53 leading binary digits, the nearest such value being
  taken and, of two equally near, the one whose last kept digit is even.  The sums of
  this program stay far below the largest double.
\<close>

function bit_length :: "int \<Rightarrow> nat" where
  "bit_length n = (if n \<le> 0 then 0 else Suc (bit_length (n div 2)))"
  by pat_completeness auto
termination
  by (relation "measure nat") simp_all

declare bit_length.simps [simp del]

definition nearest_double :: "int \<Rightarrow> int" where
  "nearest_double m =
     (let a = \<bar>m\<bar>;
          q = 2 ^ (bit_length a - 53);
          lo = (a div q) * q;
          r = a mod q
      in sgn m * (if 2 * r < q \<or> (2 * r = q \<and> even (a div q)) then lo else lo + q))"

text \<open>\<open>!version()\<close> and \<open>x + 1\<close>, on the numbers that \<open>version\<close> holds.\<close>

fun is_zero :: "'v js_value \<Rightarrow> bool" where
  "is_zero (Number n) = (n = 0)"
| "is_zero (Anything v) = False"

fun plus_one :: "'v js_value \<Rightarrow> 'v js_value" where
  "plus_one (Number n) = Number (nearest_double (n + 1))"
| "plus_one (Anything v) = Anything v"

text \<open>\<open>LoadableStatus\<close> and \<open>ResourceData\<close>; the value is \<open>None\<close> for \<open>undefined\<close>.\<close>

datatype loadable_status = Idle | Loading | Failed | Succeeded

record 'a resource_data =
  data_status :: loadable_status
  data_value :: "'a option"

text \<open>
  What one call of the loader comes to, as \<open>convertToPromise\<close> and \<open>getResult\<close> see
  it: a value that is not a future (wrapped by \<open>Promise.resolve\<close>), an error thrown
  (wrapped by \<open>Promise.reject\<close>), or a future that the status cache has as resolved, as
  rejected, or as pending.  The loader gets the accessors, so it is a reading of the
  caller's dependencies; it is not a pure function, so it is given the number of the
  call.
\<close>

datatype 'a load_result =
    ReturnsValue 'a
  | ThrowsError 'a
  | ResolvedFuture 'a
  | RejectedFuture 'a
  | PendingFuture

datatype 'a outcome = Fulfilled 'a | RejectedWith 'a

text \<open>
  A load whose future was pending when it started: the controller that the callbacks
  captured (\<open>const d = defer\<close>), how the future will settle when that is known already,
  and whether the callback attached to \<open>Promise.all\<close> has fired.
\<close>

record 'a load =
  captured :: nat
  known :: "'a outcome option"
  fired :: bool

text \<open>
  The variables of \<open>createResource\<close>.  Controllers are objects compared by identity
  (\<open>d !== defer\<close>) and an unpause function keeps acting on the controller it came from,
  so all controllers made are kept, by number; \<open>defer_ref\<close> is the one that the
  variable \<open>defer\<close> refers to, and \<open>promise\<close> is its future unless \<open>dispose\<close> has put
  \<open>NEVER_RESOLVED_PROMISE\<close> there.  \<open>changes\<close> records the calls
  \<open>onChangeNotifier.invoke(loadable)\<close> with what \<open>loadable\<close> shows, and \<open>cached\<close> what
  \<open>setResult(resource, ...)\<close> put into the status cache.
\<close>

record 'a resource_state =
  current :: "'a resource_data"
  disposed :: bool
  defers :: "nat \<Rightarrow> 'a deferred"
  defer_ref :: nat
  defers_made :: nat
  never_resolved :: bool
  initial :: "'a option"
  loads :: "'a load list"
  loader_calls :: nat
  changes :: "'a resource_data list"
  cached :: "'a promise_result option"

definition new_resource :: "'a option \<Rightarrow> 'a resource_state" where
  "new_resource init =
     \<lparr>current = \<lparr>data_status = Idle, data_value = None\<rparr>, disposed = False,
      defers = (\<lambda>d. createDefer), defer_ref = 0, defers_made = 1, never_resolved = False,
      initial = init, loads = [], loader_calls = 0, changes = [], cached = None\<rparr>"

text \<open>\<open>current.value !== value\<close>, on values that may be \<open>undefined\<close>.\<close>

fun option_strict_eq :: "('a \<Rightarrow> 'a \<Rightarrow> bool) \<Rightarrow> 'a option \<Rightarrow> 'a option \<Rightarrow> bool" where
  "option_strict_eq strict_eq None None = True"
| "option_strict_eq strict_eq (Some a) (Some b) = strict_eq a b"
| "option_strict_eq strict_eq a b = False"

text \<open>\<open>update\<close>.\<close>

definition update ::
  "('a \<Rightarrow> 'a \<Rightarrow> bool) \<Rightarrow> loadable_status \<Rightarrow> 'a option \<Rightarrow> 'a resource_state
     \<Rightarrow> 'a resource_state" where
  "update strict_eq st v s =
     (let s1 = (if data_status (current s) \<noteq> st
                   \<or> \<not> option_strict_eq strict_eq (data_value (current s)) v
                then s\<lparr>current := \<lparr>data_status = st, data_value = v\<rparr>,
                       changes := changes s @ [\<lparr>data_status = st, data_value = v\<rparr>]\<rparr>
                else s)
      in case st of
           Loading \<Rightarrow> s1\<lparr>cached := Some \<lparr>result_status = Pending, result_value = None\<rparr>\<rparr>
         | Failed \<Rightarrow> s1\<lparr>cached := Some \<lparr>result_status = Rejected, result_value = v\<rparr>\<rparr>
         | Succeeded \<Rightarrow> s1\<lparr>cached := Some \<lparr>result_status = Resolved, result_value = v\<rparr>\<rparr>
         | Idle \<Rightarrow> s1)"

text \<open>The three callbacks given to \<open>waitAll\<close> (for all resolved, for one rejected, for
  one pending), for the controller \<open>d\<close> they captured.\<close>

definition when_resolved ::
  "('a \<Rightarrow> 'a \<Rightarrow> bool) \<Rightarrow> nat \<Rightarrow> 'a \<Rightarrow> 'a resource_state \<Rightarrow> 'a resource_state" where
  "when_resolved strict_eq d v s =
     (if disposed s \<or> d \<noteq> defer_ref s then s
      else update strict_eq Succeeded (Some v) (s\<lparr>defers := (defers s)(d := resolve v (defers s d))\<rparr>))"

definition when_rejected ::
  "('a \<Rightarrow> 'a \<Rightarrow> bool) \<Rightarrow> nat \<Rightarrow> 'a \<Rightarrow> 'a resource_state \<Rightarrow> 'a resource_state" where
  "when_rejected strict_eq d reason s =
     (if disposed s \<or> d \<noteq> defer_ref s then s
      else update strict_eq Failed (Some reason)
             (s\<lparr>defers := (defers s)(d := reject reason (defers s d))\<rparr>))"

definition when_pending ::
  "('a \<Rightarrow> 'a \<Rightarrow> bool) \<Rightarrow> nat \<Rightarrow> 'a resource_state \<Rightarrow> 'a resource_state" where
  "when_pending strict_eq d s =
     (if disposed s \<or> d \<noteq> defer_ref s then s else update strict_eq Loading None s)"

text \<open>
  \<open>waitAll([future], when_resolved, when_rejected, when_pending)\<close> for the one future of a load:
  a rejected or a resolved future calls its callback at once; a pending one calls the
  third callback and leaves the other two attached, which is recorded as a load.
\<close>

definition wait_for_load ::
  "('a \<Rightarrow> 'a \<Rightarrow> bool) \<Rightarrow> 'a load_result \<Rightarrow> 'a resource_state \<Rightarrow> 'a resource_state" where
  "wait_for_load strict_eq lr s =
     (let d = defer_ref s;
          attach = (\<lambda>k s'. s'\<lparr>loads := loads s' @ [\<lparr>captured = d, known = k, fired = False\<rparr>]\<rparr>)
      in case lr of
           RejectedFuture reason \<Rightarrow> when_rejected strict_eq d reason s
         | ResolvedFuture v \<Rightarrow> when_resolved strict_eq d v s
         | PendingFuture \<Rightarrow> attach None (when_pending strict_eq d s)
         | ReturnsValue v \<Rightarrow> attach (Some (Fulfilled v)) (when_pending strict_eq d s)
         | ThrowsError e \<Rightarrow> attach (Some (RejectedWith e)) (when_pending strict_eq d s))"

text \<open>Mapping the result of a reading, and a reading of the caller's dependencies as a
  reading of the effect's.\<close>

primrec map_reading :: "('r \<Rightarrow> 'u) \<Rightarrow> ('n, 'v, 'r) reading \<Rightarrow> ('n, 'v, 'u) reading" where
  "map_reading g (Return r) = Return (g r)"
| "map_reading g (Read key k) = Read key (\<lambda>v. map_reading g (k v))"

primrec of_dependencies :: "('n, 'v, 'r) reading \<Rightarrow> ('n resource_dep, 'v, 'r) reading" where
  "of_dependencies (Return r) = Return r"
| "of_dependencies (Read key k) = Read (Dependency key) (\<lambda>v. of_dependencies (k v))"

text \<open>
  The body of the resource's effect.  A new controller is made when the current one
  has settled; the initial value, when there is one, is used up in place of a call of
  the loader.
\<close>

definition resource_fn ::
  "('a \<Rightarrow> 'a \<Rightarrow> bool) \<Rightarrow> (nat \<Rightarrow> ('n, 'v js_value, 'a load_result) reading)
     \<Rightarrow> 'a resource_state \<Rightarrow> ('n resource_dep, 'v js_value, 'a resource_state) reading" where
  "resource_fn strict_eq loadFn s =
     (if disposed s then Return s
      else Read VERSION_PROP (\<lambda>version.
        if is_zero version then Return s
        else
          (let s1 = (if status (defers s (defer_ref s)) \<noteq> Pending
                     then s\<lparr>defers := (defers s)(defers_made s := createDefer),
                            defer_ref := defers_made s,
                            defers_made := Suc (defers_made s)\<rparr>
                     else s)
           in case initial s1 of
                Some initialValue \<Rightarrow>
                  Return (wait_for_load strict_eq (ReturnsValue initialValue) (s1\<lparr>initial := None\<rparr>))
              | None \<Rightarrow>
                  map_reading
                    (\<lambda>lr. wait_for_load strict_eq lr (s1\<lparr>loader_calls := Suc (loader_calls s1)\<rparr>))
                    (of_dependencies (loadFn (loader_calls s1))))))"

text \<open>A resource with its effect: the world of the effect, whose closure variables are
  those of the resource.\<close>

type_synonym ('n, 'v, 'o, 'a) resource =
  "('n resource_dep, 'v js_value, 'o, 'a resource_state) effect_world"

definition resource_dependencies ::
  "('n \<Rightarrow> 'v js_value) \<Rightarrow> 'n resource_dep \<Rightarrow> ('v js_value, 'o subscriber) static_state" where
  "resource_dependencies vals key =
     (case key of
        VERSION_PROP \<Rightarrow> createStaticState (Number 0)
      | Dependency n \<Rightarrow> createStaticState (vals n))"

definition createResource ::
  "('a \<Rightarrow> 'a \<Rightarrow> bool) \<Rightarrow> ('n \<Rightarrow> 'v js_value)
     \<Rightarrow> (nat \<Rightarrow> ('n, 'v js_value, 'a load_result) reading) \<Rightarrow> 'a option
     \<Rightarrow> ('n, 'v, 'o, 'a) resource" where
  "createResource strict_eq vals loadFn init =
     createEffect (resource_dependencies vals) (resource_fn strict_eq loadFn) (new_resource init)"

text \<open>\<open>version()\<close>, \<open>load\<close> and \<open>reload\<close>.\<close>

definition version :: "('n, 'v, 'o, 'a) resource \<Rightarrow> 'v js_value" where
  "version w = state_read (dependencies w VERSION_PROP)"

definition load ::
  "('a \<Rightarrow> 'a \<Rightarrow> bool) \<Rightarrow> ('v \<Rightarrow> 'v \<Rightarrow> bool) \<Rightarrow> (nat \<Rightarrow> ('n, 'v js_value, 'a load_result) reading)
     \<Rightarrow> ('n, 'v, 'o, 'a) resource \<Rightarrow> ('n, 'v, 'o, 'a) resource" where
  "load strict_eq eq_v loadFn w =
     (if is_zero (version w)
      then write_dependency (js_strict_eq eq_v) (resource_fn strict_eq loadFn) VERSION_PROP
             (Plain (Number 1)) w
      else w)"

definition reload ::
  "('a \<Rightarrow> 'a \<Rightarrow> bool) \<Rightarrow> ('v \<Rightarrow> 'v \<Rightarrow> bool) \<Rightarrow> (nat \<Rightarrow> ('n, 'v js_value, 'a load_result) reading)
     \<Rightarrow> ('n, 'v, 'o, 'a) resource \<Rightarrow> ('n, 'v, 'o, 'a) resource" where
  "reload strict_eq eq_v loadFn w =
     write_dependency (js_strict_eq eq_v) (resource_fn strict_eq loadFn) VERSION_PROP
       (Updater plus_one) w"

text \<open>\<open>dispose\<close>: \<open>disposed = true; version.dispose(); disposeEffect();
  promise = NEVER_RESOLVED_PROMISE\<close>.\<close>

definition dispose :: "('n, 'v, 'o, 'a) resource \<Rightarrow> ('n, 'v, 'o, 'a) resource" where
  "dispose w =
     (if disposed (closure w) then w
      else
        (let w1 = w\<lparr>closure := (closure w)\<lparr>disposed := True\<rparr>\<rparr>;
             w2 = w1\<lparr>dependencies := (dependencies w1)
                    (VERSION_PROP := state_dispose (dependencies w1 VERSION_PROP))\<rparr>;
             w3 = disposeEffect w2
         in w3\<lparr>closure := (closure w3)\<lparr>never_resolved := True\<rparr>\<rparr>))"

text \<open>
  The callback that a pending load left attached fires when the load's future settles:
  once, with the outcome known for it or else the one its future settles with.
\<close>

definition settle ::
  "('a \<Rightarrow> 'a \<Rightarrow> bool) \<Rightarrow> nat \<Rightarrow> 'a outcome \<Rightarrow> 'a resource_state \<Rightarrow> 'a resource_state" where
  "settle strict_eq l how s =
     (if l < length (loads s) \<and> \<not> fired (loads s ! l)
      then
        (let ld = loads s ! l;
             s1 = s\<lparr>loads := (loads s)[l := ld\<lparr>fired := True\<rparr>]\<rparr>
         in case (case known ld of Some k \<Rightarrow> k | None \<Rightarrow> how) of
              Fulfilled v \<Rightarrow> when_resolved strict_eq (captured ld) v s1
            | RejectedWith reason \<Rightarrow> when_rejected strict_eq (captured ld) reason s1)
      else s)"

text \<open>\<open>pause()\<close>: \<open>defer.pause()\<close>; the function returned belongs to that controller.\<close>

definition pause_resource :: "'a resource_state \<Rightarrow> 'a resource_state \<times> nat \<times> unpause_fn" where
  "pause_resource s =
     (let d = defer_ref s; (c, u) = pause (defers s d)
      in (s\<lparr>defers := (defers s)(d := c)\<rparr>, d, u))"

definition unpause_resource :: "nat \<times> unpause_fn \<Rightarrow> 'a resource_state \<Rightarrow> 'a resource_state" where
  "unpause_resource du s = s\<lparr>defers := (defers s)(fst du := run_unpause (snd du) (defers s (fst du)))\<rparr>"

text \<open>What \<open>then\<close> observes: how the future \<open>promise\<close> is settled, if it is.\<close>

definition promise_of :: "'a resource_state \<Rightarrow> (settle_status \<times> 'a option) option" where
  "promise_of s = (if never_resolved s then None else promise (defers s (defer_ref s)))"

text \<open>A history of a resource.\<close>

datatype ('n, 'v, 'o, 'a) resource_call =
    Load
  | Reload
  | DisposeResource
  | Settle nat "'a outcome"
  | WriteObserved 'n "'v js_value write_arg"
  | SubscribeObserved 'n 'o
  | PauseResource
  | RunUnpause nat unpause_fn

fun resource_step ::
  "('a \<Rightarrow> 'a \<Rightarrow> bool) \<Rightarrow> ('v \<Rightarrow> 'v \<Rightarrow> bool) \<Rightarrow> (nat \<Rightarrow> ('n, 'v js_value, 'a load_result) reading)
     \<Rightarrow> ('n, 'v, 'o, 'a) resource \<Rightarrow> ('n, 'v, 'o, 'a) resource_call \<Rightarrow> ('n, 'v, 'o, 'a) resource" where
  "resource_step strict_eq eq_v loadFn w Load = load strict_eq eq_v loadFn w"
| "resource_step strict_eq eq_v loadFn w Reload = reload strict_eq eq_v loadFn w"
| "resource_step strict_eq eq_v loadFn w DisposeResource = dispose w"
| "resource_step strict_eq eq_v loadFn w (Settle l how) =
     w\<lparr>closure := settle strict_eq l how (closure w)\<rparr>"
| "resource_step strict_eq eq_v loadFn w (WriteObserved n a) =
     write_dependency (js_strict_eq eq_v) (resource_fn strict_eq loadFn) (Dependency n) a w"
| "resource_step strict_eq eq_v loadFn w (SubscribeObserved n l) =
     w\<lparr>dependencies := (dependencies w)
          (Dependency n := fst (state_subscribe [Outside l] (dependencies w (Dependency n))))\<rparr>"
| "resource_step strict_eq eq_v loadFn w PauseResource =
     w\<lparr>closure := fst (pause_resource (closure w))\<rparr>"
| "resource_step strict_eq eq_v loadFn w (RunUnpause d u) =
     w\<lparr>closure := unpause_resource (d, u) (closure w)\<rparr>"

definition resource_after ::
  "('a \<Rightarrow> 'a \<Rightarrow> bool) \<Rightarrow> ('v \<Rightarrow> 'v \<Rightarrow> bool) \<Rightarrow> ('n \<Rightarrow> 'v js_value)
     \<Rightarrow> (nat \<Rightarrow> ('n, 'v js_value, 'a load_result) reading) \<Rightarrow> 'a option
     \<Rightarrow> ('n, 'v, 'o, 'a) resource_call list \<Rightarrow> ('n, 'v, 'o, 'a) resource" where
  "resource_after strict_eq eq_v vals loadFn init calls =
     foldl (resource_step strict_eq eq_v loadFn) (createResource strict_eq vals loadFn init) calls"

text \<open>A loader for examples: it reads nothing and returns a new pending future at
  every call.\<close>

definition fetch :: "nat \<Rightarrow> (unit, unit js_value, string load_result) reading" where
  "fetch n = Return PendingFuture"





section \<open>Listener group: the remove function\<close>

lemma mset_splice_first: "mset (splice_first c xs) = mset xs - {#c#}"
  by (induction xs) auto

lemma mset_remove_each: "mset (remove_each cs xs) = mset xs - mset cs"
  by (induction cs arbitrary: xs) (auto simp: mset_splice_first)

lemma count_remove_each:
  "count_list (remove_each cs xs) c = count_list xs c - count_list cs c"
proof -
  have "count (mset (remove_each cs xs)) c = count (mset xs - mset cs) c"
    by (simp add: mset_remove_each)
  then show ?thesis by (simp add: count_mset)
qed


lemma count_list_pos_iff: "0 < count_list xs c \<longleftrightarrow> c \<in> set xs"
  using count_list_0_iff [of xs c] by auto

text \<open>
  C9, as amended.  Let \<open>r\<close> be the remove function returned by one registration call
  with the callbacks \<open>new\<close>.  Whatever the group holds when \<open>r\<close> first runs (\<open>cbs\<close>:
  other registrations, removals or a \<open>clear\<close> may have happened in between), that run
  takes out one stored occurrence for each callback of \<open>new\<close>, as far as there is one:
  the stored callbacks afterwards are those before minus \<open>new\<close>, as multisets.  Every
  later run of \<open>r\<close> changes nothing, whatever the group holds then.  A callback is
  still stored after \<open>r\<close> has run exactly when the group held it more often than the
  call of \<open>r\<close> passed it.  So a callback of \<open>new\<close> that a later registration call
  registered too is still stored after \<open>r\<close> has run, when what the call of \<open>r\<close> stored
  is still there (the group is the one that call left, with later registrations).
\<close>

theorem remover_removes_one_occurrence_once:
  assumes reg: "register new cbs0 = (cbs1, r)"
  shows "(\<forall>c. count_list (fst (run_remover r cbs)) c = count_list cbs c - count_list new c)
       \<and> mset (fst (run_remover r cbs)) = mset cbs - mset new
       \<and> (\<forall>cbs'. run_remover (snd (run_remover r cbs)) cbs' = (cbs', snd (run_remover r cbs)))
       \<and> (\<forall>c. c \<in> set (fst (run_remover r cbs)) \<longleftrightarrow> count_list new c < count_list cbs c)
       \<and> (\<forall>other c. c \<in> set other \<longrightarrow>
             c \<in> set (fst (run_remover r (fst (register other cbs1)))))
       \<and> (\<forall>others c. c \<in> set (concat others) \<longrightarrow>
             c \<in> set (fst (run_remover r (foldl (\<lambda>g other. fst (register other g)) cbs1 others))))"
proof -
  from reg have r: "active r" "newCallbacks r = new" and cbs1: "cbs1 = cbs0 @ new"
    by (auto simp: register_def)
  have a: "\<forall>c. count_list (fst (run_remover r cbs)) c = count_list cbs c - count_list new c"
    using r by (simp add: run_remover_def count_remove_each)
  have b: "mset (fst (run_remover r cbs)) = mset cbs - mset new"
    using r by (simp add: run_remover_def mset_remove_each)
  have c: "\<forall>cbs'. run_remover (snd (run_remover r cbs)) cbs' = (cbs', snd (run_remover r cbs))"
    using r by (simp add: run_remover_def)
  have m: "c \<in> set (fst (run_remover r g)) \<longleftrightarrow> count_list new c < count_list g c" for c g
  proof -
    have "count_list (fst (run_remover r g)) c = count_list g c - count_list new c"
      using r by (simp add: run_remover_def count_remove_each)
    then show ?thesis
      using count_list_pos_iff [of "fst (run_remover r g)" c] by auto
  qed
  have e: "c \<in> set (fst (run_remover r (foldl (\<lambda>g other. fst (register other g)) cbs1 others)))"
    if "c \<in> set (concat others)" for others c
  proof -
    have f: "foldl (\<lambda>g other. fst (register other g)) g others = g @ concat others" for g
      by (induction others arbitrary: g) (simp_all add: register_def)
    have "0 < count_list (concat others) c"
      using that by (simp only: count_list_pos_iff)
    then have "count_list new c < count_list (cbs1 @ concat others) c"
      by (simp add: cbs1)
    then show ?thesis by (simp only: m f)
  qed
  have d: "c \<in> set (fst (run_remover r (fst (register other cbs1))))"
    if "c \<in> set other" for other c
    using e [of c "[other]"] that by simp
  from a b c m [of _ cbs] d e show ?thesis by blast
qed

text \<open>The group holds \<open>f\<close> from an earlier call; \<open>f, g\<close> are registered (remover
  \<open>r\<close>), then \<open>f\<close> once more by another call.  Running \<open>r\<close> leaves two \<open>f\<close>, and
  running it again changes nothing.\<close>

theorem remover_removes_one_occurrence_once_witness:
  "register [CHR ''f'', CHR ''g''] [CHR ''f'']
     = ([CHR ''f'', CHR ''f'', CHR ''g''], \<lparr>active = True, newCallbacks = [CHR ''f'', CHR ''g'']\<rparr>)
   \<and> fst (run_remover \<lparr>active = True, newCallbacks = [CHR ''f'', CHR ''g'']\<rparr>
            [CHR ''f'', CHR ''f'', CHR ''g'', CHR ''f'']) = [CHR ''f'', CHR ''f'']
   \<and> count_list (fst (run_remover \<lparr>active = True, newCallbacks = [CHR ''f'', CHR ''g'']\<rparr>
            [CHR ''f'', CHR ''f'', CHR ''g'', CHR ''f''])) (CHR ''f'') = 2
   \<and> CHR ''f'' \<in> set (fst (run_remover \<lparr>active = True, newCallbacks = [CHR ''f'', CHR ''g'']\<rparr>
            (fst (register [CHR ''f''] [CHR ''f'', CHR ''f'', CHR ''g'']))))"
proof -
  have reg: "register [CHR ''f'', CHR ''g''] [CHR ''f'']
     = ([CHR ''f'', CHR ''f'', CHR ''g''], \<lparr>active = True, newCallbacks = [CHR ''f'', CHR ''g'']\<rparr>)"
    by (simp add: register_def)
  from remover_removes_one_occurrence_once [OF reg, of "[CHR ''f'', CHR ''f'', CHR ''g'', CHR ''f'']"]
  have "CHR ''f'' \<in> set (fst (run_remover \<lparr>active = True, newCallbacks = [CHR ''f'', CHR ''g'']\<rparr>
            (fst (register [CHR ''f''] [CHR ''f'', CHR ''f'', CHR ''g'']))))"
    and "count_list (fst (run_remover \<lparr>active = True, newCallbacks = [CHR ''f'', CHR ''g'']\<rparr>
            [CHR ''f'', CHR ''f'', CHR ''g'', CHR ''f''])) (CHR ''f'') = 2"
    by simp_all
  moreover have "fst (run_remover \<lparr>active = True, newCallbacks = [CHR ''f'', CHR ''g'']\<rparr>
            [CHR ''f'', CHR ''f'', CHR ''g'', CHR ''f'']) = [CHR ''f'', CHR ''f'']"
    by (simp add: run_remover_def)
  ultimately show ?thesis using reg by simp
qed

text \<open>The claim as it stands fails after a \<open>clear\<close>: \<open>f\<close> is registered (remover \<open>r\<close>),
  the group is cleared, and another call registers \<open>f, g\<close>.  Running \<open>r\<close> takes out the
  \<open>f\<close> that the other call stored: \<open>f\<close>, registered through a different call, is not
  subscribed any more.\<close>

theorem remover_after_clear_counterexample:
  "fst (register [CHR ''f'', CHR ''g''] (clear (fst (register [CHR ''f''] []))))
     = [CHR ''f'', CHR ''g'']
   \<and> fst (run_remover (snd (register [CHR ''f''] []))
           (fst (register [CHR ''f'', CHR ''g''] (clear (fst (register [CHR ''f''] []))))))
     = [CHR ''g'']"
  by (simp add: register_def clear_def run_remover_def)

section \<open>Static state: writes and notifications\<close>

lemma invoke_map: "invoke cbs v = map (\<lambda>c. (c, v)) cbs"
  by (simp add: invoke_def)

lemma map_fst_pair: "map (fst \<circ> (\<lambda>c. (c, v))) cbs = cbs"
  by (induction cbs) auto

text \<open>
  C6.  A write whose new value is identical to the current one under \<open>!==\<close> changes
  nothing and calls no subscriber.  A write whose new value differs stores it and calls
  the subscribers, in registration order, each as often as it is registered (once for a
  subscriber registered once), each with the new value; the calls are part of what the
  write returns, so they are made before it returns.  An updater function is applied to
  the previous value.  Writing the same value (one that \<open>===\<close> itself) twice in a row
  notifies nobody the second time.
\<close>

theorem static_state_write_notifies_on_change_only:
  fixes s :: "('v, 'c) static_state"
  shows "(strict_eq (currentValue s) (new_value a (currentValue s)) \<longrightarrow>
            state_write strict_eq a s = (s, []))
       \<and> (\<not> strict_eq (currentValue s) (new_value a (currentValue s)) \<longrightarrow>
            snd (state_write strict_eq a s)
              = map (\<lambda>c. (c, new_value a (currentValue s))) (changeNotifier s)
            \<and> (\<forall>c. count_list (map fst (snd (state_write strict_eq a s))) c
                  = count_list (changeNotifier s) c)
            \<and> state_read (fst (state_write strict_eq a s)) = new_value a (currentValue s)
            \<and> changeNotifier (fst (state_write strict_eq a s)) = changeNotifier s)
       \<and> new_value (Updater f) (currentValue s) = f (currentValue s)
       \<and> new_value (Plain v) (currentValue s) = v
       \<and> (strict_eq v v \<longrightarrow>
            snd (state_write strict_eq (Plain v) (fst (state_write strict_eq (Plain v) s))) = [])"
  by (auto simp: state_write_def state_read_def Let_def invoke_map map_fst_pair)

text \<open>A counter holding 4 with subscribers \<open>f\<close> and \<open>g\<close>: writing 5 calls both with 5,
  writing 5 again calls nobody, and the updater \<open>x \<mapsto> x + 1\<close> then writes 6.\<close>

theorem static_state_write_notifies_on_change_only_witness:
  "state_write (=) (Plain (5::int)) \<lparr>currentValue = 4, changeNotifier = [CHR ''f'', CHR ''g'']\<rparr>
     = (\<lparr>currentValue = 5, changeNotifier = [CHR ''f'', CHR ''g'']\<rparr>, [(CHR ''f'', 5), (CHR ''g'', 5)])
   \<and> state_write (=) (Plain (5::int)) \<lparr>currentValue = 5, changeNotifier = [CHR ''f'', CHR ''g'']\<rparr>
     = (\<lparr>currentValue = 5, changeNotifier = [CHR ''f'', CHR ''g'']\<rparr>, [])
   \<and> snd (state_write (=) (Updater (\<lambda>x. x + 1))
            \<lparr>currentValue = (5::int), changeNotifier = [CHR ''f'', CHR ''g'']\<rparr>)
     = [(CHR ''f'', 6), (CHR ''g'', 6)]"
proof -
  have a: "\<not> (=) (currentValue \<lparr>currentValue = (4::int), changeNotifier = [CHR ''f'', CHR ''g'']\<rparr>)
             (new_value (Plain 5) (currentValue \<lparr>currentValue = (4::int), changeNotifier = [CHR ''f'', CHR ''g'']\<rparr>))"
    by simp
  have b: "(=) (currentValue \<lparr>currentValue = (5::int), changeNotifier = [CHR ''f'', CHR ''g'']\<rparr>)
             (new_value (Plain 5) (currentValue \<lparr>currentValue = (5::int), changeNotifier = [CHR ''f'', CHR ''g'']\<rparr>))"
    by simp
  have c: "\<not> (=) (currentValue \<lparr>currentValue = (5::int), changeNotifier = [CHR ''f'', CHR ''g'']\<rparr>)
             (new_value (Updater (\<lambda>x. x + 1)) (currentValue \<lparr>currentValue = (5::int), changeNotifier = [CHR ''f'', CHR ''g'']\<rparr>))"
    by simp
  note t = static_state_write_notifies_on_change_only
  from a t [of "(=)" "\<lparr>currentValue = (4::int), changeNotifier = [CHR ''f'', CHR ''g'']\<rparr>" "Plain 5"]
  have 1: "snd (state_write (=) (Plain (5::int)) \<lparr>currentValue = 4, changeNotifier = [CHR ''f'', CHR ''g'']\<rparr>)
            = [(CHR ''f'', 5), (CHR ''g'', 5)]"
    by simp
  from b t [of "(=)" "\<lparr>currentValue = (5::int), changeNotifier = [CHR ''f'', CHR ''g'']\<rparr>" "Plain 5"]
  have 2: "state_write (=) (Plain (5::int)) \<lparr>currentValue = 5, changeNotifier = [CHR ''f'', CHR ''g'']\<rparr>
     = (\<lparr>currentValue = 5, changeNotifier = [CHR ''f'', CHR ''g'']\<rparr>, [])"
    by simp
  from c t [of "(=)" "\<lparr>currentValue = (5::int), changeNotifier = [CHR ''f'', CHR ''g'']\<rparr>" "Updater (\<lambda>x. x + 1)"]
  have 3: "snd (state_write (=) (Updater (\<lambda>x. x + 1))
            \<lparr>currentValue = (5::int), changeNotifier = [CHR ''f'', CHR ''g'']\<rparr>)
     = [(CHR ''f'', 6), (CHR ''g'', 6)]"
    by simp
  have 4: "fst (state_write (=) (Plain (5::int)) \<lparr>currentValue = 4, changeNotifier = [CHR ''f'', CHR ''g'']\<rparr>)
            = \<lparr>currentValue = 5, changeNotifier = [CHR ''f'', CHR ''g'']\<rparr>"
    by (simp add: state_write_def)
  from 1 2 3 4 show ?thesis by (simp add: prod_eq_iff)
qed

section \<open>Deferred controller: first call wins\<close>

lemma defer_inv_create: "defer_inv createDefer"
  by (simp add: defer_inv_def createDefer_def)

lemma defer_inv_resolve: "defer_inv d \<Longrightarrow> defer_inv (resolve v d)"
  by (cases "isPausing d")
     (auto simp: defer_inv_def resolve_def syncStatus_def settle_promise_def)

lemma defer_inv_reject: "defer_inv d \<Longrightarrow> defer_inv (reject v d)"
  by (cases "isPausing d")
     (auto simp: defer_inv_def reject_def syncStatus_def settle_promise_def)

lemma defer_inv_pause: "defer_inv d \<Longrightarrow> defer_inv (fst (pause d))"
  by (auto simp: defer_inv_def pause_def)

lemma defer_inv_unpause: "defer_inv d \<Longrightarrow> defer_inv (run_unpause u d)"
  by (cases u; cases "realStatus d")
     (auto simp: defer_inv_def syncStatus_def settle_promise_def)

lemma defer_inv_step: "defer_inv d \<Longrightarrow> defer_inv (defer_step d c)"
  by (cases c)
     (simp_all add: defer_inv_resolve defer_inv_reject defer_inv_pause defer_inv_unpause)

lemma defer_inv_foldl: "defer_inv d \<Longrightarrow> defer_inv (foldl defer_step d cs)"
  by (induction cs arbitrary: d) (auto simp: defer_inv_step)

lemma defer_inv_run: "defer_inv (defer_run cs)"
  by (simp add: defer_run_def defer_inv_foldl defer_inv_create)

lemma realStatus_unpause: "realStatus (run_unpause u d) = realStatus d"
  by (cases u) (auto simp: syncStatus_def)

lemma realValue_unpause: "realValue (run_unpause u d) = realValue d"
  by (cases u) (auto simp: syncStatus_def)

lemma decided_step_fixed: "decided d \<noteq> None \<Longrightarrow> decided (defer_step d c) = decided d"
  by (cases c)
     (auto simp: decided_def resolve_def reject_def pause_def realStatus_unpause
        realValue_unpause split: if_splits)

lemma decided_foldl_fixed: "decided d \<noteq> None \<Longrightarrow> decided (foldl defer_step d cs) = decided d"
  by (induction cs arbitrary: d) (auto simp: decided_step_fixed)

lemma decided_foldl:
  "decided d = None \<Longrightarrow> decided (foldl defer_step d cs) = first_settle cs"
proof (induction cs arbitrary: d)
  case Nil
  then show ?case by simp
next
  case (Cons c cs)
  show ?case
  proof (cases c)
    case (CallResolve v)
    have "decided (defer_step d c) = Some (Resolved, Some v)"
      using Cons.prems CallResolve
      by (auto simp: decided_def resolve_def syncStatus_def split: if_splits)
    then show ?thesis using CallResolve by (simp add: decided_foldl_fixed)
  next
    case (CallReject r)
    have "decided (defer_step d c) = Some (Rejected, Some r)"
      using Cons.prems CallReject
      by (auto simp: decided_def reject_def syncStatus_def split: if_splits)
    then show ?thesis using CallReject by (simp add: decided_foldl_fixed)
  next
    case CallPause
    have "decided (defer_step d c) = None"
      using Cons.prems CallPause by (auto simp: decided_def pause_def split: if_splits)
    then show ?thesis using CallPause Cons.IH by simp
  next
    case (CallUnpause u)
    have "decided (defer_step d c) = None"
      using Cons.prems CallUnpause
      by (auto simp: decided_def realStatus_unpause split: if_splits)
    then show ?thesis using CallUnpause Cons.IH by simp
  qed
qed

lemma decided_create: "decided createDefer = None"
  by (simp add: decided_def createDefer_def)

lemma decided_run: "decided (defer_run cs) = first_settle cs"
  unfolding defer_run_def by (rule decided_foldl [OF decided_create])

lemma promise_decided: "defer_inv d \<Longrightarrow> promise d = None \<or> promise d = decided d"
  by (auto simp: defer_inv_def decided_def)

lemma first_settle_append:
  "first_settle (cs @ cs')
   = (case first_settle cs of None \<Rightarrow> first_settle cs' | Some outcome \<Rightarrow> Some outcome)"
  by (induction cs rule: first_settle.induct) simp_all

lemma unpause_delivers: "defer_inv d \<Longrightarrow> promise (run_unpause Unpause d) = decided d"
  by (cases "realStatus d")
     (auto simp: defer_inv_def decided_def syncStatus_def settle_promise_def split: if_splits)

lemma settled_step: "defer_inv d \<Longrightarrow> status d \<noteq> Pending \<Longrightarrow> defer_step d c = d"
proof (cases c)
  case (CallUnpause u)
  assume "defer_inv d" "status d \<noteq> Pending"
  then show ?thesis using CallUnpause by (cases u) (auto simp: defer_inv_def)
qed (auto simp: defer_inv_def resolve_def reject_def pause_def)

lemma settled_foldl: "defer_inv d \<Longrightarrow> status d \<noteq> Pending \<Longrightarrow> foldl defer_step d cs = d"
  by (induction cs) (simp_all add: settled_step)

lemma decided_pause: "decided (fst (pause d)) = decided d"
  by (simp add: decided_def pause_def)

lemma returned_unpause_delivers:
  fixes cs cs' :: "'v defer_call list"
  shows "promise (run_unpause (snd (pause (defer_run cs)))
                   (foldl defer_step (fst (pause (defer_run cs))) cs'))
         = first_settle (cs @ cs')"
proof -
  let ?d = "defer_run cs"
  let ?d1 = "fst (pause ?d)"
  let ?d2 = "foldl defer_step ?d1 cs'"
  have inv: "defer_inv ?d" by (rule defer_inv_run)
  have inv1: "defer_inv ?d1" by (rule defer_inv_pause [OF inv])
  have inv2: "defer_inv ?d2" by (rule defer_inv_foldl [OF inv1])
  have dec1: "decided ?d1 = first_settle cs" by (simp add: decided_pause decided_run)
  have dec2: "decided ?d2 = first_settle (cs @ cs')"
  proof (cases "first_settle cs")
    case None
    then show ?thesis using decided_foldl [of ?d1 cs'] dec1 by (simp add: first_settle_append)
  next
    case (Some outcome)
    then show ?thesis
      using decided_foldl_fixed [of ?d1 cs'] dec1 by (simp add: first_settle_append)
  qed
  show ?thesis
  proof (cases "status ?d = Pending")
    case True
    then have "snd (pause ?d) = Unpause" by (simp add: pause_def)
    then show ?thesis using unpause_delivers [OF inv2] dec2 by simp
  next
    case False
    then have p: "pause ?d = (?d, Noop)" by (simp add: pause_def)
    then have "?d2 = ?d" using settled_foldl [OF inv False] by simp
    moreover have "promise ?d = decided ?d"
      using inv False by (auto simp: defer_inv_def decided_def)
    ultimately show ?thesis using p dec2 by simp
  qed
qed

text \<open>
  C7.  Take any sequence \<open>cs\<close> of calls on a fresh controller: \<open>resolve\<close>, \<open>reject\<close>,
  \<open>pause\<close>, and runs of the functions \<open>pause\<close> returns.  The decided outcome is that
  of the first \<open>resolve\<close> or \<open>reject\<close> of the sequence, whatever \<open>pause\<close> and unpause
  calls stand around it, and once there is one every further \<open>resolve\<close> and \<open>reject\<close>
  leaves the controller as it is.  The future is unsettled or settled with that decided
  outcome, never with another; when the controller is not pausing, a decided outcome has
  been delivered.  Once the future is settled \<open>pause\<close> changes nothing and returns the
  inert function.  Unpausing a pausing controller delivers what has been decided.
  While the future is unsettled, \<open>pause\<close> makes the controller pausing and returns a
  function that is not inert; while the controller is pausing nothing is delivered,
  also by a \<open>resolve\<close> or \<open>reject\<close> then.  Whatever calls \<open>cs'\<close> follow a \<open>pause\<close>,
  running the function that this \<open>pause\<close> returned leaves the future settled with the
  outcome of the first \<open>resolve\<close> or \<open>reject\<close> of all the calls, when there is one, and
  unsettled when there is none.
\<close>

theorem defer_first_call_wins:
  fixes cs :: "'v defer_call list"
  shows "decided (defer_run cs) = first_settle cs
    \<and> (promise (defer_run cs) = None \<or> promise (defer_run cs) = first_settle cs)
    \<and> (first_settle cs \<noteq> None \<longrightarrow>
          (\<forall>v. resolve v (defer_run cs) = defer_run cs \<and> reject v (defer_run cs) = defer_run cs))
    \<and> (first_settle cs \<noteq> None \<and> \<not> isPausing (defer_run cs) \<longrightarrow>
          promise (defer_run cs) = first_settle cs)
    \<and> (promise (defer_run cs) \<noteq> None \<longrightarrow>
          pause (defer_run cs) = (defer_run cs, Noop)
          \<and> run_unpause Noop (defer_run cs) = defer_run cs)
    \<and> (isPausing (defer_run cs) \<longrightarrow>
          promise (run_unpause Unpause (defer_run cs)) = first_settle cs)
    \<and> (promise (defer_run cs) = None \<longrightarrow>
          snd (pause (defer_run cs)) = Unpause
          \<and> isPausing (fst (pause (defer_run cs)))
          \<and> promise (fst (pause (defer_run cs))) = None)
    \<and> (isPausing (defer_run cs) \<longrightarrow>
          promise (defer_run cs) = None
          \<and> (\<forall>v. promise (resolve v (defer_run cs)) = None
                \<and> promise (reject v (defer_run cs)) = None))
    \<and> (\<forall>cs'. promise (run_unpause (snd (pause (defer_run cs)))
                        (foldl defer_step (fst (pause (defer_run cs))) cs'))
               = first_settle (cs @ cs'))"
proof -
  let ?d = "defer_run cs"
  have inv: "defer_inv ?d" by (rule defer_inv_run)
  have dec: "decided ?d = first_settle cs" by (rule decided_run)
  have 2: "promise ?d = None \<or> promise ?d = first_settle cs"
    using promise_decided [OF inv] dec by simp
  have 3: "first_settle cs \<noteq> None \<longrightarrow>
          (\<forall>v. resolve v ?d = ?d \<and> reject v ?d = ?d)"
    using dec by (auto simp: decided_def resolve_def reject_def split: if_splits)
  have 4: "first_settle cs \<noteq> None \<and> \<not> isPausing ?d \<longrightarrow> promise ?d = first_settle cs"
    using inv dec by (auto simp: defer_inv_def decided_def split: if_splits)
  have 5: "promise ?d \<noteq> None \<longrightarrow> pause ?d = (?d, Noop) \<and> run_unpause Noop ?d = ?d"
    using inv by (auto simp: defer_inv_def pause_def)
  have 6: "isPausing ?d \<longrightarrow> promise (run_unpause Unpause ?d) = first_settle cs"
    using unpause_delivers [OF inv] dec by metis
  have 7: "promise ?d = None \<longrightarrow>
          snd (pause ?d) = Unpause \<and> isPausing (fst (pause ?d)) \<and> promise (fst (pause ?d)) = None"
    using inv by (auto simp: defer_inv_def pause_def)
  have 8: "isPausing ?d \<longrightarrow>
          promise ?d = None
          \<and> (\<forall>v. promise (resolve v ?d) = None \<and> promise (reject v ?d) = None)"
    using inv by (auto simp: defer_inv_def resolve_def reject_def syncStatus_def)
  have 9: "\<forall>cs'. promise (run_unpause (snd (pause ?d)) (foldl defer_step (fst (pause ?d)) cs'))
               = first_settle (cs @ cs')"
    by (simp add: returned_unpause_delivers)
  from dec 2 3 4 5 6 7 8 9 show ?thesis by blast
qed


text \<open>\<open>pause(); resolve(1); reject(2)\<close>: the outcome is decided (resolved with 1) and
  not delivered; unpausing delivers it.  Without the pause it is delivered at once, and a
  later \<open>pause\<close> is inert.  The function returned by \<open>pause()\<close> on a new controller,
  run after \<open>resolve(1); reject(2)\<close>, delivers the resolution with 1.\<close>

theorem defer_first_call_wins_witness:
  "decided (defer_run [CallPause, CallResolve (1::nat), CallReject 2]) = Some (Resolved, Some 1)
   \<and> promise (defer_run [CallPause, CallResolve (1::nat), CallReject 2]) = None
   \<and> isPausing (defer_run [CallPause, CallResolve (1::nat), CallReject 2])
   \<and> promise (run_unpause Unpause (defer_run [CallPause, CallResolve (1::nat), CallReject 2]))
       = Some (Resolved, Some 1)
   \<and> promise (defer_run [CallReject (2::nat), CallResolve 1]) = Some (Rejected, Some 2)
   \<and> \<not> isPausing (defer_run [CallReject (2::nat), CallResolve 1])
   \<and> snd (pause (defer_run [CallReject (2::nat), CallResolve 1])) = Noop
   \<and> snd (pause (defer_run ([] :: nat defer_call list))) = Unpause
   \<and> promise (run_unpause (snd (pause (defer_run ([] :: nat defer_call list))))
                (foldl defer_step (fst (pause (defer_run ([] :: nat defer_call list)))) [CallResolve (1::nat), CallReject 2]))
       = Some (Resolved, Some 1)"
proof -
  have p: "isPausing (defer_run [CallPause, CallResolve (1::nat), CallReject 2])"
    by (simp add: defer_run_def createDefer_def pause_def resolve_def reject_def syncStatus_def)
  have q: "promise (defer_run [CallPause, CallResolve (1::nat), CallReject 2]) = None"
    by (simp add: defer_run_def createDefer_def pause_def resolve_def reject_def syncStatus_def)
  have n: "\<not> isPausing (defer_run [CallReject (2::nat), CallResolve 1])"
    by (simp add: defer_run_def createDefer_def pause_def resolve_def reject_def syncStatus_def)
  have e: "promise (defer_run ([] :: nat defer_call list)) = None"
    by (simp add: defer_run_def createDefer_def)
  from p q defer_first_call_wins [of "[CallPause, CallResolve (1::nat), CallReject 2]"]
  have 1: "decided (defer_run [CallPause, CallResolve (1::nat), CallReject 2]) = Some (Resolved, Some 1)
    \<and> promise (run_unpause Unpause (defer_run [CallPause, CallResolve (1::nat), CallReject 2]))
       = Some (Resolved, Some 1)"
    by simp
  from n defer_first_call_wins [of "[CallReject (2::nat), CallResolve 1]"]
  have 2: "promise (defer_run [CallReject (2::nat), CallResolve 1]) = Some (Rejected, Some 2)
    \<and> snd (pause (defer_run [CallReject (2::nat), CallResolve 1])) = Noop"
    by simp
  from e defer_first_call_wins [of "[] :: nat defer_call list"]
  have 3: "snd (pause (defer_run ([] :: nat defer_call list))) = Unpause" by blast
  from defer_first_call_wins [of "[] :: nat defer_call list"]
  have "\<forall>cs'. promise (run_unpause (snd (pause (defer_run ([] :: nat defer_call list))))
                       (foldl defer_step (fst (pause (defer_run ([] :: nat defer_call list)))) cs'))
              = first_settle ([] @ cs')"
    by (elim conjE)
  from this [THEN spec, of "[CallResolve 1, CallReject 2]"]
  have 4: "promise (run_unpause (snd (pause (defer_run ([] :: nat defer_call list))))
                (foldl defer_step (fst (pause (defer_run ([] :: nat defer_call list)))) [CallResolve (1::nat), CallReject 2]))
       = Some (Resolved, Some 1)"
    by simp
  from 1 2 3 4 p q n show ?thesis by simp
qed

section \<open>waitAll: rejected, pending, resolved\<close>


lemma classify_getResult: "classify (snd (getResult p cache)) q = classify cache q"
  by (auto simp: getResult_def classify_def setResult_def Let_def split: option.splits)

lemma fst_getResult: "fst (getResult p cache) = classify cache p"
  by (auto simp: getResult_def classify_def Let_def split: option.splits)

lemma fst_getResults: "fst (getResults ps cache) = map (classify cache) ps"
proof (induction ps arbitrary: cache)
  case Nil
  then show ?case by simp
next
  case (Cons p ps)
  have "fst (getResults ps (snd (getResult p cache))) = map (classify cache) ps"
    using Cons.IH [of "snd (getResult p cache)"] by (simp add: classify_getResult)
  then show ?case
    using fst_getResult [of p cache] by (simp add: split_beta)
qed

lemma waitAll_sync:
  "fst (waitAll values [] cache) =
     (case find (\<lambda>x. result_status x = Rejected) (map (classify cache) values) of
        Some r \<Rightarrow> Throws (result_value r)
      | None \<Rightarrow>
          if list_ex (\<lambda>x. result_status x = Pending) (map (classify cache) values)
          then ThrowsPromiseAll values
          else Returns (map result_value (map (classify cache) values)))"
  using fst_getResults [of "values" cache]
  by (simp add: waitAll_def split_beta split: option.splits)

lemma waitAll_callbacks:
  "fst (waitAll values [Some onResolved, Some onRejected, Some onPending] cache) =
     (case find (\<lambda>x. result_status x = Rejected) (map (classify cache) values) of
        Some r \<Rightarrow> ReturnsUndefined [CallOnRejected onRejected (result_value r)]
      | None \<Rightarrow>
          if list_ex (\<lambda>x. result_status x = Pending) (map (classify cache) values)
          then ReturnsUndefined
                 [CallOnPending onPending, AttachThen values (Some onResolved) (Some onRejected)]
          else ReturnsUndefined
                 [CallOnResolved onResolved (map result_value (map (classify cache) values))])"
  using fst_getResults [of "values" cache]
  by (simp add: waitAll_def split_beta arg_def split: option.splits)

lemma find_first_index:
  "i < length xs \<Longrightarrow> P (xs ! i) \<Longrightarrow> \<forall>j<i. \<not> P (xs ! j) \<Longrightarrow> find P xs = Some (xs ! i)"
  by (auto simp: find_Some_iff)

lemma find_none_all: "\<forall>x\<in>set xs. \<not> P x \<Longrightarrow> find P xs = None"
  by (simp add: find_None_iff)

text \<open>
  C4.  Let every future of \<open>values\<close> have the classification the cache gives it
  (pending when it has none).  If some element is rejected, the synchronous form throws
  the reason of the first such element, also when other elements are pending, and the
  callback form calls \<open>onRejected\<close> with it.  Otherwise, if some element is pending,
  the synchronous form throws the combined future \<open>Promise.all(values)\<close>, and the
  callback form calls \<open>onPending\<close> and attaches \<open>onResolved\<close> and \<open>onRejected\<close> to
  that future.  Otherwise the synchronous form returns the resolved values in the order
  of \<open>values\<close>, and the callback form calls \<open>onResolved\<close> with them.
\<close>

theorem waitAll_rejected_pending_resolved:
  fixes "values" :: "'p list" and cache :: "('p, 'v) promise_results"
    and onResolved onRejected onPending :: 'f
  shows
    "(\<forall>i<length values.
        result_status (classify cache (values ! i)) = Rejected
        \<and> (\<forall>j<i. result_status (classify cache (values ! j)) \<noteq> Rejected)
        \<longrightarrow> fst (waitAll values [] cache)
              = (Throws (result_value (classify cache (values ! i))) :: ('p, 'v, 'f) wait_outcome)
            \<and> fst (waitAll values [Some onResolved, Some onRejected, Some onPending] cache)
              = ReturnsUndefined
                  [CallOnRejected onRejected (result_value (classify cache (values ! i)))])
     \<and> ((\<forall>p\<in>set values. result_status (classify cache p) \<noteq> Rejected)
         \<and> (\<exists>p\<in>set values. result_status (classify cache p) = Pending)
        \<longrightarrow> fst (waitAll values [] cache) = (ThrowsPromiseAll values :: ('p, 'v, 'f) wait_outcome)
            \<and> fst (waitAll values [Some onResolved, Some onRejected, Some onPending] cache)
              = ReturnsUndefined
                  [CallOnPending onPending, AttachThen values (Some onResolved) (Some onRejected)])
     \<and> ((\<forall>p\<in>set values. result_status (classify cache p) = Resolved)
        \<longrightarrow> fst (waitAll values [] cache)
              = (Returns (map (\<lambda>p. result_value (classify cache p)) values)
                  :: ('p, 'v, 'f) wait_outcome)
            \<and> fst (waitAll values [Some onResolved, Some onRejected, Some onPending] cache)
              = ReturnsUndefined
                  [CallOnResolved onResolved (map (\<lambda>p. result_value (classify cache p)) values)])"
proof -
  let ?cls = "map (classify cache) values"
  let ?rej = "\<lambda>x::'v promise_result. result_status x = Rejected"
  have a: "find ?rej ?cls = Some (classify cache (values ! i))"
    if "i < length values" "result_status (classify cache (values ! i)) = Rejected"
       "\<forall>j<i. result_status (classify cache (values ! j)) \<noteq> Rejected" for i
    using find_first_index [of i ?cls ?rej] that by simp
  have b: "find ?rej ?cls = None \<and> list_ex (\<lambda>x. result_status x = Pending) ?cls"
    if "\<forall>p\<in>set values. result_status (classify cache p) \<noteq> Rejected"
       "\<exists>p\<in>set values. result_status (classify cache p) = Pending"
    using that by (auto simp: find_None_iff list_ex_iff)
  have c: "find ?rej ?cls = None \<and> \<not> list_ex (\<lambda>x. result_status x = Pending) ?cls"
    if "\<forall>p\<in>set values. result_status (classify cache p) = Resolved"
    using that by (auto simp: find_None_iff list_ex_iff)
  show ?thesis
    using a b c by (simp add: waitAll_sync waitAll_callbacks comp_def)
qed

text \<open>\<open>waitAll([resolved(10), resolved(20)])\<close> returns \<open>[10, 20]\<close>; with a rejected
  second and an unclassified third element it throws the reason 99; with a resolved and
  an unclassified element the callback form calls \<open>onPending\<close>.\<close>

theorem waitAll_rejected_pending_resolved_witness:
  "fst (waitAll [1::nat, 2] [] (resolved 1 (10::int) (resolved 2 20 Map.empty)))
     = (Returns [Some 10, Some 20] :: (nat, int, string) wait_outcome)
   \<and> fst (waitAll [1::nat, 2, 3] [] (resolved 1 (10::int) (rejected 2 99 Map.empty)))
     = (Throws (Some 99) :: (nat, int, string) wait_outcome)
   \<and> fst (waitAll [1::nat, 3] [Some ''onResolved'', Some ''onRejected'', Some ''onPending'']
           (resolved 1 (10::int) Map.empty))
     = ReturnsUndefined [CallOnPending ''onPending'',
         AttachThen [1, 3] (Some ''onResolved'') (Some ''onRejected'')]"
proof -
  note t = waitAll_rejected_pending_resolved
  let ?c1 = "resolved (1::nat) (10::int) (resolved 2 20 Map.empty)"
  let ?c2 = "resolved (1::nat) (10::int) (rejected 2 99 Map.empty)"
  let ?c3 = "resolved (1::nat) (10::int) Map.empty"
  have h1: "\<forall>p\<in>set [1::nat, 2]. result_status (classify ?c1 p) = Resolved"
    by (simp add: classify_def resolved_def setResult_def)
  have h2: "(1::nat) < length [1::nat, 2, 3]
      \<and> result_status (classify ?c2 ([1::nat, 2, 3] ! 1)) = Rejected
      \<and> (\<forall>j<1. result_status (classify ?c2 ([1::nat, 2, 3] ! j)) \<noteq> Rejected)"
    by (simp add: classify_def resolved_def rejected_def setResult_def)
  have h3: "(\<forall>p\<in>set [1::nat, 3]. result_status (classify ?c3 p) \<noteq> Rejected)
      \<and> (\<exists>p\<in>set [1::nat, 3]. result_status (classify ?c3 p) = Pending)"
    by (simp add: classify_def resolved_def setResult_def)
  from h1 t [of "[1::nat, 2]" ?c1, where 'f = string]
  have 1: "fst (waitAll [1::nat, 2] [] ?c1)
     = (Returns [Some 10, Some 20] :: (nat, int, string) wait_outcome)"
    by (simp add: classify_def resolved_def setResult_def)
  from h2 t [of "[1::nat, 2, 3]" ?c2, where 'f = string, THEN conjunct1, rule_format, of 1]
  have 2: "fst (waitAll [1::nat, 2, 3] [] ?c2)
     = (Throws (Some 99) :: (nat, int, string) wait_outcome)"
    by (simp add: classify_def resolved_def rejected_def setResult_def)
  from h3 t [of "[1::nat, 3]" ?c3 "''onResolved''" "''onRejected''" "''onPending''"]
  have 3: "fst (waitAll [1::nat, 3] [Some ''onResolved'', Some ''onRejected'', Some ''onPending''] ?c3)
     = ReturnsUndefined [CallOnPending ''onPending'',
         AttachThen [1, 3] (Some ''onResolved'') (Some ''onRejected'')]"
    by simp
  from 1 2 3 show ?thesis by simp
qed

section \<open>Instance facade: what a read returns\<close>


lemma getters_ok_empty: "getters_ok nf ds Map.empty"
  by (simp add: getters_ok_def)

lemma getters_ok_get: "getters_ok nf ds gs \<Longrightarrow> getters_ok nf ds (snd (proxy_get nf ds prop gs))"
  by (auto simp: getters_ok_def proxy_get_def Let_def split: prop_key.splits option.splits)

lemma getters_ok_reads: "getters_ok nf ds gs \<Longrightarrow> getters_ok nf ds (reads nf ds ps gs)"
  by (induction ps arbitrary: gs) (auto simp: getters_ok_get)

lemma proxy_get_name:
  assumes "getters_ok nf ds gs" "p \<noteq> ''init''" "p \<noteq> ''dispose''"
  shows "fst (proxy_get nf ds (Name p) gs)
         = (case map_of ds p of None \<Rightarrow> Value None
            | Some d \<Rightarrow> run_getter (make_getter nf d))"
proof (cases "gs p")
  case None
  then show ?thesis
    using assms by (simp add: proxy_get_def Let_def split: option.splits)
next
  case (Some getter)
  with assms(1) have "getter = (case map_of ds p of None \<Rightarrow> UNDEFINED_GETTER
                                | Some d \<Rightarrow> make_getter nf d)"
    unfolding getters_ok_def by blast
  with Some show ?thesis
    using assms(2,3) by (simp add: proxy_get_def split: option.splits)
qed

lemma run_make_getter:
  "run_getter (make_getter nf d)
   = (case get d of Some g \<Rightarrow> GetterCall g
      | None \<Rightarrow> (case value d of None \<Rightarrow> Value None
                  | Some v \<Rightarrow> if nf v then Wrapper v else Value (Some v)))"
  by (simp add: make_getter_def split: option.splits)

text \<open>
  C10.  After any series of reads of a facade, reading \<open>init\<close> returns \<open>undefined\<close>,
  also when the props have an enumerable member \<open>init\<close> (which the key enumeration
  then lists); reading \<open>dispose\<close> returns the instance's \<open>dispose\<close>, whatever the props
  hold; reading any other name returns \<open>undefined\<close> when the props have no such member,
  and otherwise what the member gives: the call of its getter, or its value (or the
  wrapper around it, for a function value that passes the source's test).
\<close>

theorem facade_init_dispose_and_props:
  fixes originalProps :: "('v, 'g) props"
  shows
    "fst (proxy_get nf originalProps (Name ''init'') (reads nf originalProps ps Map.empty))
       = Value None
     \<and> (\<forall>d. (''init'', d) \<in> set originalProps \<and> enumerable d
            \<longrightarrow> ''init'' \<in> set (keys originalProps))
     \<and> fst (proxy_get nf originalProps (Name ''dispose'') (reads nf originalProps ps Map.empty))
       = Dispose
     \<and> (\<forall>p. p \<noteq> ''init'' \<and> p \<noteq> ''dispose'' \<longrightarrow>
          fst (proxy_get nf originalProps (Name p) (reads nf originalProps ps Map.empty))
          = (case map_of originalProps p of
               None \<Rightarrow> Value None
             | Some d \<Rightarrow>
                 (case get d of
                    Some g \<Rightarrow> GetterCall g
                  | None \<Rightarrow>
                      (case value d of
                         None \<Rightarrow> Value None
                       | Some v \<Rightarrow> if nf v then Wrapper v else Value (Some v)))))"
proof -
  have ok: "getters_ok nf originalProps (reads nf originalProps ps Map.empty)"
    by (rule getters_ok_reads [OF getters_ok_empty])
  have k: "''init'' \<in> set (keys originalProps)"
    if "(''init'', d) \<in> set originalProps" "enumerable d" for d
    using that by (force simp: keys_def object_keys_def)
  have n: "fst (proxy_get nf originalProps (Name p) (reads nf originalProps ps Map.empty))
          = (case map_of originalProps p of
               None \<Rightarrow> Value None
             | Some d \<Rightarrow>
                 (case get d of
                    Some g \<Rightarrow> GetterCall g
                  | None \<Rightarrow>
                      (case value d of
                         None \<Rightarrow> Value None
                       | Some v \<Rightarrow> if nf v then Wrapper v else Value (Some v))))"
    if "p \<noteq> ''init''" "p \<noteq> ''dispose''" for p
    using proxy_get_name [OF ok that] by (simp add: run_make_getter split: option.splits)
  have i: "fst (proxy_get nf originalProps (Name ''init'') (reads nf originalProps ps Map.empty))
       = Value None"
    by (simp add: proxy_get_def)
  have d: "fst (proxy_get nf originalProps (Name ''dispose'') (reads nf originalProps ps Map.empty))
       = Dispose"
    by (simp add: proxy_get_def)
  from i d k n show ?thesis by blast
qed

text \<open>Props with a data member \<open>init\<close> and an accessor member \<open>count\<close>, after two
  earlier reads.\<close>

theorem facade_init_dispose_and_props_witness:
  "fst (proxy_get (\<lambda>v. False)
          [(''init'', \<lparr>get = None, value = Some (1::nat), enumerable = True\<rparr>),
           (''count'', \<lparr>get = Some CHR ''g'', value = None, enumerable = True\<rparr>)]
          (Name ''init'')
          (reads (\<lambda>v. False)
             [(''init'', \<lparr>get = None, value = Some (1::nat), enumerable = True\<rparr>),
              (''count'', \<lparr>get = Some CHR ''g'', value = None, enumerable = True\<rparr>)]
             [Name ''count'', Name ''init''] Map.empty)) = Value None
   \<and> ''init'' \<in> set (keys
          [(''init'', \<lparr>get = None, value = Some (1::nat), enumerable = True\<rparr>),
           (''count'', \<lparr>get = Some CHR ''g'', value = None, enumerable = True\<rparr>)])
   \<and> fst (proxy_get (\<lambda>v. False)
          [(''init'', \<lparr>get = None, value = Some (1::nat), enumerable = True\<rparr>),
           (''count'', \<lparr>get = Some CHR ''g'', value = None, enumerable = True\<rparr>)]
          (Name ''count'')
          (reads (\<lambda>v. False)
             [(''init'', \<lparr>get = None, value = Some (1::nat), enumerable = True\<rparr>),
              (''count'', \<lparr>get = Some CHR ''g'', value = None, enumerable = True\<rparr>)]
             [Name ''count'', Name ''init''] Map.empty)) = GetterCall CHR ''g''
   \<and> fst (proxy_get (\<lambda>v. False)
          [(''init'', \<lparr>get = None, value = Some (1::nat), enumerable = True\<rparr>),
           (''count'', \<lparr>get = Some CHR ''g'', value = None, enumerable = True\<rparr>)]
          (Name ''absent'')
          (reads (\<lambda>v. False)
             [(''init'', \<lparr>get = None, value = Some (1::nat), enumerable = True\<rparr>),
              (''count'', \<lparr>get = Some CHR ''g'', value = None, enumerable = True\<rparr>)]
             [Name ''count'', Name ''init''] Map.empty)) = Value None"
proof -
  let ?props = "[(''init'', \<lparr>get = None, value = Some (1::nat), enumerable = True\<rparr>),
                 (''count'', \<lparr>get = Some CHR ''g'', value = None, enumerable = True\<rparr>)]"
  note t = facade_init_dispose_and_props [of "\<lambda>v. False" ?props "[Name ''count'', Name ''init'']"]
  have h: "(''init'', \<lparr>get = None, value = Some (1::nat), enumerable = True\<rparr>) \<in> set ?props
           \<and> enumerable \<lparr>get = (None :: char option), value = Some (1::nat), enumerable = True\<rparr>"
    by simp
  from t have 1: "fst (proxy_get (\<lambda>v. False) ?props (Name ''init'')
                    (reads (\<lambda>v. False) ?props [Name ''count'', Name ''init''] Map.empty)) = Value None"
    by blast
  from t h have 2: "''init'' \<in> set (keys ?props)"
    by blast
  have c: "''count'' \<noteq> ''init'' \<and> ''count'' \<noteq> ''dispose''" by simp
  from t [THEN conjunct2, THEN conjunct2, THEN conjunct2, rule_format, OF c]
  have 3: "fst (proxy_get (\<lambda>v. False) ?props (Name ''count'')
              (reads (\<lambda>v. False) ?props [Name ''count'', Name ''init''] Map.empty)) = GetterCall CHR ''g''"
    by simp
  have a: "''absent'' \<noteq> ''init'' \<and> ''absent'' \<noteq> ''dispose''" by simp
  from t [THEN conjunct2, THEN conjunct2, THEN conjunct2, rule_format, OF a]
  have 4: "fst (proxy_get (\<lambda>v. False) ?props (Name ''absent'')
              (reads (\<lambda>v. False) ?props [Name ''count'', Name ''init''] Map.empty)) = Value None"
    by simp
  from 1 2 3 4 show ?thesis by blast
qed

section \<open>Container: what the calls leave alone\<close>

lemma with_registry_frame:
  "registry (with_registry f s) = registry s"
  "next_map (with_registry f s) = next_map s"
  "arrays (with_registry f s) = arrays s"
  "instances (with_registry f s) = instances s"
  "next_instance (with_registry f s) = next_instance s"
  "next_array (with_registry f s) = next_array s"
  by (simp_all add: with_registry_def)

lemma dispose_instance_frame:
  "registry (dispose_instance js i s) = registry s"
  "next_map (dispose_instance js i s) = next_map s"
  "maps (dispose_instance js i s) = maps s"
  "next_instance (dispose_instance js i s) = next_instance s"
  by (simp_all add: dispose_instance_def split: option.splits)

lemma foldl_dispose_frame:
  "registry (foldl (\<lambda>s' x. dispose_instance js (snd x) s') s xs) = registry s"
  "next_map (foldl (\<lambda>s' x. dispose_instance js (snd x) s') s xs) = next_map s"
  "maps (foldl (\<lambda>s' x. dispose_instance js (snd x) s') s xs) = maps s"
  "next_instance (foldl (\<lambda>s' x. dispose_instance js (snd x) s') s xs) = next_instance s"
  by (induction xs arbitrary: s) (simp_all add: dispose_instance_frame)

lemma dispose_entry_frame:
  "registry (dispose_entry js e s) = registry s"
  "next_map (dispose_entry js e s) = next_map s"
  "maps (dispose_entry js e s) = maps s"
  "next_instance (dispose_entry js e s) = next_instance s"
  by (simp_all add: dispose_entry_def foldl_dispose_frame split: registry_entry.splits)

lemma foldl_dispose_entry_frame:
  "registry (foldl (\<lambda>s' (k, entry). dispose_entry js entry s') s es) = registry s"
  "next_map (foldl (\<lambda>s' (k, entry). dispose_entry js entry s') s es) = next_map s"
  "maps (foldl (\<lambda>s' (k, entry). dispose_entry js entry s') s es) = maps s"
  "next_instance (foldl (\<lambda>s' (k, entry). dispose_entry js entry s') s es) = next_instance s"
  by (induction es arbitrary: s) (simp_all add: dispose_entry_frame split_beta)

lemma container_get_frame:
  "registry (snd (container_get js type key s)) = registry s"
  "next_map (snd (container_get js type key s)) = next_map s"
  by (auto simp: container_get_def with_registry_frame Let_def
      split: option.splits registry_entry.splits)

lemma container_set_frame:
  "registry (container_set js key impl s) = registry s"
  "next_map (container_set js key impl s) = next_map s"
  by (simp_all add: container_set_def with_registry_frame)

lemma container_delete_frame:
  "registry (container_delete js type key s) = registry s"
  "next_map (container_delete js type key s) = next_map s"
  by (auto simp: container_delete_def with_registry_frame dispose_instance_frame
      split: option.splits registry_entry.splits)

lemma container_deleteAll_frame:
  "registry (container_deleteAll js type s) = registry s"
  "next_map (container_deleteAll js type s) = next_map s"
  by (auto simp: container_deleteAll_def with_registry_frame dispose_entry_frame
      foldl_dispose_entry_frame split: option.splits)

lemma registry_fixed_step:
  assumes "registry_fixed h"
  shows "registry_fixed (container_step js h c)"
proof (cases h)
  case (Pair s rs)
  with assms have a: "registry s = 0" "0 < next_map s" "\<forall>r\<in>set rs. newRegistry r \<noteq> 0"
    by (simp_all add: registry_fixed_def)
  show ?thesis
  proof (cases c)
    case CallBackup
    then show ?thesis using a Pair by (auto simp: registry_fixed_def backup_def)
  next
    case (CallRestore n)
    have "restore (rs ! n) s = s" if "n < length rs"
    proof -
      from a(3) nth_mem [OF that] have "newRegistry (rs ! n) \<noteq> 0" by blast
      with a(1) show ?thesis by (simp add: restore_def)
    qed
    then show ?thesis using CallRestore a Pair by (auto simp: registry_fixed_def)
  qed (use a Pair in \<open>simp_all add: registry_fixed_def container_get_frame container_set_frame
        container_delete_frame container_deleteAll_frame dispose_instance_frame\<close>)
qed

lemma registry_fixed_foldl:
  "registry_fixed h \<Longrightarrow> registry_fixed (foldl (container_step js) h cs)"
  by (induction cs arbitrary: h) (simp_all add: registry_fixed_step)

lemma registry_fixed_run: "registry_fixed (container_run js cs)"
  unfolding container_run_def
  by (rule registry_fixed_foldl) (simp add: registry_fixed_def createContainer_def)

text \<open>Whatever has been called before, calling a function that \<open>backup\<close> returned
  changes nothing.\<close>

lemma restore_never_applies:
  "container_run js (cs @ [CallRestore n]) = container_run js cs"
proof -
  obtain s rs where h: "container_run js cs = (s, rs)" by (cases "container_run js cs")
  from registry_fixed_run [of js cs] h
  have a: "registry s = 0" "\<forall>r\<in>set rs. newRegistry r \<noteq> 0" by (simp_all add: registry_fixed_def)
  have "restore (rs ! n) s = s" if "n < length rs"
  proof -
    from a(2) nth_mem [OF that] have "newRegistry (rs ! n) \<noteq> 0" by blast
    with a(1) show ?thesis by (simp add: restore_def)
  qed
  then show ?thesis using h by (simp add: container_run_def)
qed

section \<open>Container: one element for each key\<close>




























section \<open>Container: get after get\<close>





























section \<open>Container: get after other calls\<close>


lemma registry_get_native:
  "the_registry s = NativeMap al \<Longrightarrow> registry_get js d s = map_of al d"
  by (simp add: registry_get_def)





lemma next_array_dispose: "next_array (dispose_instance js i s) = next_array s"
  by (simp add: dispose_instance_def split: option.splits)

lemma next_array_foldl_dispose:
  "next_array (foldl (\<lambda>s' x. dispose_instance js (snd x) s') s xs) = next_array s"
  by (induction xs arbitrary: s) (simp_all add: next_array_dispose)

lemma next_array_dispose_entry: "next_array (dispose_entry js e s) = next_array s"
  by (simp add: dispose_entry_def next_array_foldl_dispose split: registry_entry.splits)

lemma next_array_foldl_dispose_entry:
  "next_array (foldl (\<lambda>s' (k, entry). dispose_entry js entry s') s es) = next_array s"
  by (induction es arbitrary: s) (simp_all add: next_array_dispose_entry split_beta)
























section \<open>Container: backup and restore\<close>

text \<open>
  C1.  \<open>backup\<close> never makes \<open>registry\<close> refer to the copy it creates, so the test
  \<open>newRegistry === registry\<close> of the function it returns fails at every call: the
  function changes nothing, superseded or not.  Here \<open>p2\<close> is set, a backup is taken,
  \<open>p2\<close> is set again and the backup is restored: the registry holds the later value,
  not the one it held at the backup.
\<close>

theorem restore_keeps_set_made_after_backup:
  "registry_get structural (Other ''p2'')
     (fst (container_run structural [CallSet (Other ''p2'') ''original'', CallBackup]))
     = Some (ValueEntry ''original'')
   \<and> registry_get structural (Other ''p2'')
     (fst (container_run structural
        [CallSet (Other ''p2'') ''original'', CallBackup, CallSet (Other ''p2'') ''mock'',
         CallRestore 0]))
     = Some (ValueEntry ''mock'')"
  by (simp add: container_run_def createContainer_def structural_def container_set_def
      registry_get_def with_registry_def the_registry_def backup_def restore_def)

section \<open>Container: equal keys, one instance\<close>




section \<open>Effects: subscriptions follow the reads\<close>



























































lemmas effect_eval = effect_after_def createEffect_def run_fn_def new_states_def
   createStaticState_def accessor_get_def state_subscribe_def register_def state_read_def
   write_dependency_def state_write_def invoke_def Let_def handleChange_def invokeAndClear_def
   run_cleanup_def state_unsubscribe_def run_remover_def clear_def




section \<open>Resources: the effect stays wired to the version\<close>

lemma bit_length_le: "n < 2 ^ k \<Longrightarrow> bit_length n \<le> k"
proof (induction k arbitrary: n)
  case 0
  then show ?case by (simp add: bit_length.simps [of n])
next
  case (Suc k)
  show ?case
  proof (cases "n \<le> 0")
    case True
    then show ?thesis by (simp add: bit_length.simps [of n])
  next
    case False
    have "n div 2 < 2 ^ k" using Suc.prems by simp
    from Suc.IH [OF this] show ?thesis using False by (simp add: bit_length.simps [of n])
  qed
qed

lemma bit_length_gt: "2 ^ k \<le> n \<Longrightarrow> k < bit_length n"
proof (induction k arbitrary: n)
  case 0
  then show ?case by (simp add: bit_length.simps [of n])
next
  case (Suc k)
  have "(0::int) < 2 ^ Suc k" by simp
  with Suc.prems have pos: "\<not> n \<le> 0" by linarith
  have "2 ^ k \<le> n div 2" using Suc.prems by simp
  from Suc.IH [OF this] show ?case using pos by (simp add: bit_length.simps [of n])
qed

lemma bit_length_eq: "2 ^ k \<le> n \<Longrightarrow> n < 2 ^ Suc k \<Longrightarrow> bit_length n = Suc k"
  using bit_length_le [of n "Suc k"] bit_length_gt [of k n] by simp

text \<open>Whole numbers up to \<open>2^53\<close> are doubles; \<open>2^53 + 1\<close> is not, and is as near to
  \<open>2^53\<close> as to \<open>2^53 + 2\<close>: the sum \<open>2^53 + 1\<close> is \<open>2^53\<close>.\<close>

lemma nearest_double_exact:
  assumes "\<bar>m\<bar> \<le> 2 ^ 53"
  shows "nearest_double m = m"
proof (cases "\<bar>m\<bar> < 2 ^ 53")
  case True
  from bit_length_le [OF this] have "bit_length \<bar>m\<bar> - 53 = 0" by simp
  then show ?thesis by (simp add: nearest_double_def Let_def mult_sgn_abs)
next
  case False
  with assms have a: "\<bar>m\<bar> = 2 ^ 53" by simp
  then have "bit_length \<bar>m\<bar> = Suc 53"
    using bit_length_eq [of 53 "\<bar>m\<bar>"] by simp
  then have "nearest_double m = sgn m * \<bar>m\<bar>"
    by (simp add: nearest_double_def Let_def a)
  then show ?thesis by (simp add: mult_sgn_abs)
qed













subsection \<open>The body of the effect\<close>







lemma defer_ref_update: "defer_ref (update strict_eq st v s) = defer_ref s"
  by (cases st) (simp_all add: update_def Let_def)


























section \<open>Resources: load, reload and the life of a load\<close>















lemmas resource_eval = resource_after_def createResource_def resource_dependencies_def
   resource_fn_def new_resource_def load_def reload_def version_def dispose_def settle_def
   wait_for_load_def when_resolved_def when_rejected_def when_pending_def update_def
   createDefer_def resolve_def reject_def syncStatus_def settle_promise_def
   disposeEffect_def state_dispose_def pause_resource_def unpause_resource_def pause_def
   promise_of_def nearest_double_exact




text \<open>A loader whose future carries a cached \<open>resolved\<close> result (one made by \<open>resolved\<close>,
  or one that \<open>getResult\<close> has seen settle) makes \<open>waitAll\<close> call the completion callback
  at once: the status goes from \<open>idle\<close> to \<open>succeeded\<close> with one notification, and is never
  \<open>loading\<close>.\<close>

lemma settled_future_skips_loading:
  "current (closure (resource_after (=) (=) (\<lambda>n. Number 0)
              (\<lambda>n. Return (ResolvedFuture ''a'')) None
              [Load] :: (unit, unit, unit, string) resource))
     = \<lparr>data_status = Succeeded, data_value = Some ''a''\<rparr>
   \<and> length (changes (closure (resource_after (=) (=) (\<lambda>n. Number 0)
              (\<lambda>n. Return (ResolvedFuture ''a'')) None
              [Load] :: (unit, unit, unit, string) resource))) = 1"
  by (simp add: effect_eval resource_eval)




section \<open>Resources: loads that overlap\<close>

text \<open>A callback whose controller is not the current one, or that fires on a disposed
  resource, changes nothing: this is the guard \<open>if (disposed || d !== defer) return\<close>.\<close>

lemma stale_callback_discarded:
  assumes "disposed s \<or> d \<noteq> defer_ref s"
  shows "when_resolved strict_eq d v s = s"
    and "when_rejected strict_eq d v s = s"
    and "when_pending strict_eq d s = s"
  using assms by (auto simp: when_resolved_def when_rejected_def when_pending_def)

text \<open>
  C2.  The effect makes a new controller only when the current one has settled, so a
  reload during a pending load leaves both loads with the same controller, and the
  guard lets both through.  Here \<open>load()\<close> starts load 0 and \<open>reload()\<close> starts load 1
  while load 0 is pending; load 1 is fulfilled with \<open>new\<close> and then load 0 with
  \<open>stale\<close>.  Both loads captured controller 0, which is still the current one; the
  superseded load 0 makes the status \<open>succeeded\<close> with \<open>stale\<close> and has the subscribers
  called a third time, while the future of the resource is resolved with \<open>new\<close>.
\<close>

theorem superseded_load_writes_state:
  "map captured (loads (closure (resource_after (=) (=) (\<lambda>n. Number 0) fetch None
       [Load, Reload] :: (unit, unit, unit, string) resource))) = [0, 0]
   \<and> defer_ref (closure (resource_after (=) (=) (\<lambda>n. Number 0) fetch None
       [Load, Reload, Settle 1 (Fulfilled ''new'')] :: (unit, unit, unit, string) resource)) = 0
   \<and> current (closure (resource_after (=) (=) (\<lambda>n. Number 0) fetch None
       [Load, Reload, Settle 1 (Fulfilled ''new'')] :: (unit, unit, unit, string) resource))
     = \<lparr>data_status = Succeeded, data_value = Some ''new''\<rparr>
   \<and> current (closure (resource_after (=) (=) (\<lambda>n. Number 0) fetch None
       [Load, Reload, Settle 1 (Fulfilled ''new''), Settle 0 (Fulfilled ''stale'')]
         :: (unit, unit, unit, string) resource))
     = \<lparr>data_status = Succeeded, data_value = Some ''stale''\<rparr>
   \<and> changes (closure (resource_after (=) (=) (\<lambda>n. Number 0) fetch None
       [Load, Reload, Settle 1 (Fulfilled ''new''), Settle 0 (Fulfilled ''stale'')]
         :: (unit, unit, unit, string) resource))
     = [\<lparr>data_status = Loading, data_value = None\<rparr>,
        \<lparr>data_status = Succeeded, data_value = Some ''new''\<rparr>,
        \<lparr>data_status = Succeeded, data_value = Some ''stale''\<rparr>]
   \<and> promise_of (closure (resource_after (=) (=) (\<lambda>n. Number 0) fetch None
       [Load, Reload, Settle 1 (Fulfilled ''new''), Settle 0 (Fulfilled ''stale'')]
         :: (unit, unit, unit, string) resource))
     = Some (Resolved, Some ''new'')"
  by (simp add: effect_eval resource_eval fetch_def)

end
